theory Spec2Isabelle
  imports Complex_Main
begin

section \<open>Python strings\<close>

text \<open>
  A Python \<open>str\<close> is modelled as a \<open>string\<close> whose characters are the code points
  U+0000 .. U+00FF (Latin-1), so that \<open>length\<close> is Python's \<open>len\<close>.  The character
  classes below are Python's on that range.
\<close>

definition is_space :: "char \<Rightarrow> bool" where
  \<comment> \<open>\<open>str.isspace\<close>, also the class \<open>\s\<close> of \<open>re\<close> and the separators of \<open>str.split()\<close> and \<open>str.strip()\<close>\<close>
  "is_space c =
     (let n = (of_char c :: nat)
      in (9 \<le> n \<and> n \<le> 13) \<or> (28 \<le> n \<and> n \<le> 32) \<or> n = 133 \<or> n = 160)"

definition is_decimal :: "char \<Rightarrow> bool" where
  \<comment> \<open>the class \<open>\d\<close> of \<open>re\<close>\<close>
  "is_decimal c = (let n = (of_char c :: nat) in 48 \<le> n \<and> n \<le> 57)"

definition is_digit_char :: "char \<Rightarrow> bool" where
  \<comment> \<open>one character of \<open>str.isdigit\<close>: the decimal digits and the superscripts 1, 2, 3\<close>
  "is_digit_char c =
     (let n = (of_char c :: nat) in (48 \<le> n \<and> n \<le> 57) \<or> n = 178 \<or> n = 179 \<or> n = 185)"

definition is_ascii_letter :: "char \<Rightarrow> bool" where
  "is_ascii_letter c =
     (let n = (of_char c :: nat) in (65 \<le> n \<and> n \<le> 90) \<or> (97 \<le> n \<and> n \<le> 122))"

definition lower_char :: "char \<Rightarrow> char" where
  "lower_char c =
     (let n = (of_char c :: nat)
      in if (65 \<le> n \<and> n \<le> 90) \<or> (192 \<le> n \<and> n \<le> 222 \<and> n \<noteq> 215)
         then char_of (n + 32) else c)"

definition lower :: "string \<Rightarrow> string" where
  \<comment> \<open>\<open>str.lower\<close>\<close>
  "lower s = map lower_char s"

definition lstrip :: "string \<Rightarrow> string" where
  "lstrip s = dropWhile is_space s"

definition rstrip :: "string \<Rightarrow> string" where
  "rstrip s = rev (dropWhile is_space (rev s))"

definition strip :: "string \<Rightarrow> string" where
  \<comment> \<open>\<open>str.strip()\<close>\<close>
  "strip s = rstrip (lstrip s)"

fun split_ws_from :: "string \<Rightarrow> string \<Rightarrow> string list" where
  \<comment> \<open>the first argument is the word being read\<close>
  "split_ws_from w [] = (if w = [] then [] else [w])"
| "split_ws_from w (c # cs) =
     (if is_space c then (if w = [] then split_ws_from [] cs else w # split_ws_from [] cs)
      else split_ws_from (w @ [c]) cs)"

definition split_ws :: "string \<Rightarrow> string list" where
  \<comment> \<open>\<open>str.split()\<close>: the maximal runs of characters that are not white space\<close>
  "split_ws s = split_ws_from [] s"

fun split_on :: "char \<Rightarrow> string \<Rightarrow> string list" where
  \<comment> \<open>\<open>str.split(sep)\<close> for a separator of one character: empty pieces are kept\<close>
  "split_on sep [] = [[]]"
| "split_on sep (c # cs) =
     (if c = sep then [] # split_on sep cs
      else (case split_on sep cs of p # ps \<Rightarrow> (c # p) # ps | [] \<Rightarrow> [[c]]))"

fun join :: "string \<Rightarrow> string list \<Rightarrow> string" where
  \<comment> \<open>\<open>sep.join(xs)\<close>\<close>
  "join sep [] = []"
| "join sep [x] = x"
| "join sep (x # y # ys) = x @ sep @ join sep (y # ys)"

definition truthy :: "string \<Rightarrow> bool" where
  \<comment> \<open>the truth value of a \<open>str\<close> in a condition\<close>
  "truthy s = (s \<noteq> [])"

section \<open>Page classifier (\<open>content_filter.py\<close>)\<close>

record PageContent =
  page_number :: int
  page_text :: string
  word_count :: int
  has_images :: bool
  font_sizes :: "rat list"

record FilterResult =
  should_skip :: bool
  reason :: string
  confidence :: rat

text \<open>
  The two scoring helpers \<open>_calculate_keyword_score\<close> and \<open>_calculate_toc_score\<close> count
  regular-expression matches and divide floats; they are parameters of the model.  Scores
  and confidences are rational numbers.
\<close>

record scorers =
  calculate_keyword_score :: "string \<Rightarrow> string set \<Rightarrow> rat"
  calculate_toc_score :: "string \<Rightarrow> rat"

definition copyright_keywords :: "string set" where
  "copyright_keywords =
     {''copyright'', ''published'', ''isbn'', ''edition'', ''printing'', ''publisher'',
      ''all rights reserved'', ''no part of this publication'', ''library of congress'',
      ''cataloging-in-publication'', ''printed in'', ''first published''}"

definition acknowledgment_keywords :: "string set" where
  "acknowledgment_keywords =
     {''acknowledgment'', ''acknowledgement'', ''thanks to'', ''grateful to'',
      ''dedication'', ''dedicated to'', ''in memory of'', ''special thanks'',
      ''would like to thank'', ''gratitude'', ''appreciation''}"

definition index_keywords :: "string set" where
  "index_keywords =
     {''index'', ''bibliography'', ''references'', ''works cited'', ''further reading'',
      ''suggested reading'', ''notes'', ''endnotes'', ''footnotes''}"

definition promotional_keywords :: "string set" where
  "promotional_keywords =
     {''praise for'', ''reviews'', ''also by'', ''about the author'', ''other books'',
      ''from the reviews'', ''acclaim for'', ''what readers are saying'',
      ''testimonials'', ''endorsements''}"

type_synonym config = "string \<Rightarrow> bool option"

definition config_get :: "config \<Rightarrow> string \<Rightarrow> bool" where
  \<comment> \<open>\<open>config.get(key, True)\<close>\<close>
  "config_get cfg k = (case cfg k of None \<Rightarrow> True | Some b \<Rightarrow> b)"

definition analyze_page_position :: "scorers \<Rightarrow> PageContent \<Rightarrow> string \<Rightarrow> rat" where
  "analyze_page_position sc page txt =
     (if page_number page \<le> 5
      then min (calculate_keyword_score sc txt {''copyright'', ''published'', ''isbn'', ''edition''} * 2) 1
      else 0)"

definition analyze_page :: "scorers \<Rightarrow> PageContent \<Rightarrow> config \<Rightarrow> FilterResult" where
  "analyze_page sc page cfg =
     (let txt = lower (page_text page) in
      if word_count page < 50
      then \<lparr>should_skip = True, reason = ''Too few words'', confidence = 9 / 10\<rparr>
      else if config_get cfg ''SKIP_COPYRIGHT''
              \<and> calculate_keyword_score sc txt copyright_keywords > 3 / 10
      then \<lparr>should_skip = True, reason = ''Copyright/publication page'',
            confidence = calculate_keyword_score sc txt copyright_keywords\<rparr>
      else if config_get cfg ''SKIP_ACKNOWLEDGMENTS''
              \<and> calculate_keyword_score sc txt acknowledgment_keywords > 2 / 10
      then \<lparr>should_skip = True, reason = ''Acknowledgments/dedication'',
            confidence = calculate_keyword_score sc txt acknowledgment_keywords\<rparr>
      else if config_get cfg ''SKIP_TOC'' \<and> calculate_toc_score sc txt > 4 / 10
      then \<lparr>should_skip = True, reason = ''Table of contents'',
            confidence = calculate_toc_score sc txt\<rparr>
      else if config_get cfg ''SKIP_INDEX''
              \<and> calculate_keyword_score sc txt index_keywords > 3 / 10
      then \<lparr>should_skip = True, reason = ''Index/bibliography'',
            confidence = calculate_keyword_score sc txt index_keywords\<rparr>
      else if config_get cfg ''SKIP_BIBLIOGRAPHY''
              \<and> calculate_keyword_score sc txt promotional_keywords > 3 / 10
      then \<lparr>should_skip = True, reason = ''Promotional content'',
            confidence = calculate_keyword_score sc txt promotional_keywords\<rparr>
      else if analyze_page_position sc page txt > 7 / 10
      then \<lparr>should_skip = True, reason = ''Likely metadata page'',
            confidence = analyze_page_position sc page txt\<rparr>
      else \<lparr>should_skip = False, reason = ''Main content'', confidence = 0\<rparr>)"

definition filter_pages :: "scorers \<Rightarrow> PageContent list \<Rightarrow> config \<Rightarrow> PageContent list" where
  "filter_pages sc pages cfg = filter (\<lambda>page. \<not> should_skip (analyze_page sc page cfg)) pages"

section \<open>Chapter segmenter (\<open>pdf_processor.py\<close>)\<close>

text \<open>
  The five heading patterns are searched with \<open>re.MULTILINE | re.IGNORECASE\<close>: a match
  starts at the beginning of the text or right after a newline, letters match without
  case, and \<open>\s+\<close>, \<open>\d+\<close> take the longest run.  Each pattern is a test of the text from a
  position on; \<open>re_search\<close> gives the start of the leftmost match.  The loop over the pages
  carries the finished sections and the section that is open.
\<close>

definition isdigit :: "string \<Rightarrow> bool" where
  \<comment> \<open>\<open>str.isdigit\<close>\<close>
  "isdigit s = (s \<noteq> [] \<and> list_all is_digit_char s)"

record BookSection =
  title :: string
  start_page :: int
  end_page :: int
  content :: string
  section_type :: string

definition is_roman :: "char \<Rightarrow> bool" where
  \<comment> \<open>the class \<open>[IVX]\<close> under \<open>re.IGNORECASE\<close>\<close>
  "is_roman c = (c \<in> set ''IVXivx'')"

definition match_word_then :: "string \<Rightarrow> (char \<Rightarrow> bool) \<Rightarrow> string \<Rightarrow> bool" where
  \<comment> \<open>a match of \<open>WORD\s+C+\<close> at the start of \<open>s\<close>, the word compared without case\<close>
  "match_word_then w cls s =
     (lower (take (length w) s) = w \<and>
      (case drop (length w) s of
         [] \<Rightarrow> False
       | c # r \<Rightarrow> is_space c \<and>
           (case dropWhile is_space r of [] \<Rightarrow> False | d # _ \<Rightarrow> cls d)))"

definition match_numbered :: "string \<Rightarrow> bool" where
  \<comment> \<open>a match of \<open>\d+\.\s+[A-Z]\<close> (without case) at the start of \<open>s\<close>\<close>
  "match_numbered s =
     (case s of
        [] \<Rightarrow> False
      | c # r \<Rightarrow> is_decimal c \<and>
          (case dropWhile is_decimal r of
             [] \<Rightarrow> False
           | p # r1 \<Rightarrow> p = CHR ''.'' \<and>
               (case r1 of
                  [] \<Rightarrow> False
                | w # r2 \<Rightarrow> is_space w \<and>
                    (case dropWhile is_space r2 of [] \<Rightarrow> False | l # _ \<Rightarrow> is_ascii_letter l))))"

fun search_from :: "(string \<Rightarrow> bool) \<Rightarrow> nat \<Rightarrow> bool \<Rightarrow> string \<Rightarrow> nat option" where
  \<comment> \<open>the position, the flag "a line starts here", the rest of the text\<close>
  "search_from m i bol [] = (if bol \<and> m [] then Some i else None)"
| "search_from m i bol (c # cs) =
     (if bol \<and> m (c # cs) then Some i else search_from m (Suc i) (c = CHR 0x0A) cs)"

definition re_search :: "(string \<Rightarrow> bool) \<Rightarrow> string \<Rightarrow> nat option" where
  \<comment> \<open>\<open>re.search('^...', text, re.MULTILINE | re.IGNORECASE)\<close>: the start of the leftmost match\<close>
  "re_search m s = search_from m 0 True s"

definition chapter_patterns :: "(string \<Rightarrow> bool) list" where
  "chapter_patterns =
     [match_word_then ''chapter'' is_decimal,
      match_word_then ''chapter'' is_decimal,
      match_word_then ''part'' is_roman,
      match_word_then ''part'' is_roman,
      match_numbered]"

fun first_match :: "(string \<Rightarrow> bool) list \<Rightarrow> string \<Rightarrow> nat option" where
  "first_match [] s = None"
| "first_match (p # ps) s =
     (case re_search p s of Some i \<Rightarrow> Some i | None \<Rightarrow> first_match ps s)"

fun title_lines_of :: "string list \<Rightarrow> string list \<Rightarrow> string list" where
  "title_lines_of acc [] = acc"
| "title_lines_of acc (l # ls) =
     (let line = strip l;
          acc' = (if truthy line \<and> \<not> isdigit line then acc @ [line] else acc)
      in if length acc' \<ge> 2 then acc' else title_lines_of acc' ls)"

definition extract_chapter_title :: "string \<Rightarrow> nat \<Rightarrow> string" where
  "extract_chapter_title txt start_pos =
     (let lines = split_on (CHR 0x0A) (drop start_pos txt);
          title_lines = title_lines_of [] (take 3 lines)
      in if title_lines \<noteq> [] then join '' '' title_lines else ''Untitled Chapter'')"

type_synonym detect_state = "BookSection list \<times> BookSection option"

definition detect_page :: "detect_state \<Rightarrow> PageContent \<Rightarrow> detect_state" where
  "detect_page st page =
     (let (sections, current_section) = st;
          (sections1, current1) =
            (case first_match chapter_patterns (page_text page) of
               Some pos \<Rightarrow>
                 ((case current_section of
                     Some cur \<Rightarrow> sections @ [cur\<lparr>end_page := page_number page - 1\<rparr>]
                   | None \<Rightarrow> sections),
                  Some \<lparr>title = extract_chapter_title (page_text page) pos,
                        start_page = page_number page,
                        end_page = page_number page,
                        content = [],
                        section_type = ''chapter''\<rparr>)
             | None \<Rightarrow> (sections, current_section))
      in (sections1,
          map_option (\<lambda>cur. cur\<lparr>content := content cur @ page_text page @ [CHR 0x0A]\<rparr>) current1))"

definition detect_chapters :: "PageContent list \<Rightarrow> BookSection list" where
  "detect_chapters pages =
     (let (sections, current_section) = foldl detect_page ([], None) pages
      in case current_section of
           Some cur \<Rightarrow> sections @ [cur\<lparr>end_page := page_number (last pages)\<rparr>]
         | None \<Rightarrow> sections)"


text \<open>
  For the statements about the segmenter: a page on which a heading matches, the text a
  page adds to the open section, well-formed page ranges, the invariant of the loop, the
  contents recorded so far, and the start pages recorded so far.
\<close>

definition heading_page :: "PageContent \<Rightarrow> bool" where
  "heading_page page = (first_match chapter_patterns (page_text page) \<noteq> None)"

definition page_line :: "PageContent \<Rightarrow> string" where
  "page_line page = page_text page @ [CHR 0x0A]"

definition ranges_ok :: "BookSection list \<Rightarrow> bool" where
  "ranges_ok secs =
     ((\<forall>s \<in> set secs. start_page s \<le> end_page s) \<and>
      sorted_wrt (\<lambda>a b. end_page a < start_page b) secs)"

definition detect_inv :: "int \<Rightarrow> detect_state \<Rightarrow> bool" where
  "detect_inv b st =
     (case st of (secs, cur) \<Rightarrow>
        ranges_ok secs \<and>
        (case cur of
           None \<Rightarrow> secs = []
         | Some c \<Rightarrow> (\<forall>s \<in> set secs. end_page s < start_page c) \<and> start_page c \<le> b))"

definition all_content :: "detect_state \<Rightarrow> string" where
  "all_content st =
     (case st of (secs, cur) \<Rightarrow>
        concat (map content secs) @ (case cur of None \<Rightarrow> [] | Some c \<Rightarrow> content c))"

definition starts_in :: "int set \<Rightarrow> detect_state \<Rightarrow> bool" where
  "starts_in N st =
     (case st of (secs, cur) \<Rightarrow>
        (\<forall>s \<in> set secs. start_page s \<in> N) \<and>
        (case cur of None \<Rightarrow> True | Some c \<Rightarrow> start_page c \<in> N))"

section \<open>Audio assembler (\<open>audio_processor.py\<close>)\<close>

text \<open>
  An exception is its message.  An \<open>AudioSegment\<close> of pydub is the list of the clips it
  was put together from: the decoded payload of a chunk, or a silence of so many
  milliseconds; \<open>AudioSegment.empty()\<close> is the empty list and \<open>+\<close> appends.  Whether a
  payload decodes and how long it plays is given by a \<open>codec\<close>.  A procedure that may raise
  returns \<open>Inl\<close> or \<open>Some\<close> of the exception, next to the state it leaves.  The pause
  is a rational number where the source has a float.
\<close>

datatype exn = Exception string

fun str_nat :: "nat \<Rightarrow> string" where
  "str_nat n = (if n < 10 then [char_of (48 + n)] else str_nat (n div 10) @ [char_of (48 + n mod 10)])"

declare str_nat.simps [simp del]

definition str_int :: "int \<Rightarrow> string" where
  \<comment> \<open>\<open>str(i)\<close> of an integer, as an f-string prints it\<close>
  "str_int i = (if i < 0 then CHR ''-'' # str_nat (nat (- i)) else str_nat (nat i))"

definition int_trunc :: "rat \<Rightarrow> int" where
  \<comment> \<open>\<open>int(x)\<close> of a number: rounding towards zero\<close>
  "int_trunc x = (if x < 0 then \<lceil>x\<rceil> else \<lfloor>x\<rfloor>)"

type_synonym bytes = "char list"

record AudioChunk =
  audio_data :: bytes
  chunk_text :: string
  chunk_chapter :: "string option"
  start_time :: "rat option"
  duration :: "rat option"

datatype clip = Clip bytes | Silence int

type_synonym AudioSegment = "clip list"

record codec =
  decode_error :: "bytes \<Rightarrow> string option"
  clip_ms :: "bytes \<Rightarrow> nat"

definition from_file :: "codec \<Rightarrow> bytes \<Rightarrow> exn + AudioSegment" where
  "from_file cdc b =
     (case decode_error cdc b of Some msg \<Rightarrow> Inl (Exception msg) | None \<Rightarrow> Inr [Clip b])"

definition silent :: "int \<Rightarrow> AudioSegment" where
  "silent d = [Silence d]"

fun clip_len :: "codec \<Rightarrow> clip \<Rightarrow> nat" where
  "clip_len cdc (Clip b) = clip_ms cdc b"
| "clip_len cdc (Silence d) = nat d"

definition segment_ms :: "codec \<Rightarrow> AudioSegment \<Rightarrow> nat" where
  "segment_ms cdc seg = sum_list (map (clip_len cdc) seg)"

definition truthy_opt :: "string option \<Rightarrow> bool" where
  "truthy_opt x = (case x of None \<Rightarrow> False | Some s \<Rightarrow> truthy s)"

type_synonym 'st callback = "string \<Rightarrow> rat \<Rightarrow> 'st \<Rightarrow> exn option \<times> 'st"

definition call_callback :: "'st callback option \<Rightarrow> string \<Rightarrow> rat \<Rightarrow> 'st \<Rightarrow> exn option \<times> 'st" where
  "call_callback cb msg prog st = (case cb of None \<Rightarrow> (None, st) | Some f \<Rightarrow> f msg prog st)"

definition pause_after :: "AudioChunk \<Rightarrow> AudioChunk list \<Rightarrow> bool" where
  "pause_after chunk rest =
     (case rest of
        [] \<Rightarrow> False
      | nxt # _ \<Rightarrow> truthy_opt (chunk_chapter chunk) \<and> truthy_opt (chunk_chapter nxt) \<and> chunk_chapter chunk \<noteq> chunk_chapter nxt)"

fun combine_loop ::
  "codec \<Rightarrow> rat \<Rightarrow> 'st callback option \<Rightarrow> nat \<Rightarrow> nat \<Rightarrow> AudioChunk list \<Rightarrow> AudioSegment \<Rightarrow> 'st
     \<Rightarrow> (exn + AudioSegment) \<times> 'st" where
  "combine_loop cdc pause cb total_chunks i [] combined st = (Inr combined, st)"
| "combine_loop cdc pause cb total_chunks i (chunk # rest) combined st =
     (case call_callback cb (''Processing chunk '' @ str_nat (i + 1) @ ''/'' @ str_nat total_chunks)
             (of_nat i / of_nat total_chunks * (8 / 10)) st of
        (Some e, st1) \<Rightarrow> (Inl e, st1)
      | (None, st1) \<Rightarrow>
          (case from_file cdc (audio_data chunk) of
             Inl e \<Rightarrow> (Inl e, st1)
           | Inr audio_segment \<Rightarrow>
               combine_loop cdc pause cb total_chunks (i + 1) rest
                 (if pause_after chunk rest
                  then (combined @ audio_segment) @ silent (int_trunc (pause * 1000))
                  else combined @ audio_segment) st1))"

definition combine_audio_chunks ::
  "codec \<Rightarrow> AudioChunk list \<Rightarrow> rat \<Rightarrow> 'st callback option \<Rightarrow> 'st \<Rightarrow> (exn + AudioSegment) \<times> 'st" where
  "combine_audio_chunks cdc chunks chapter_pause_duration progress_callback st =
     (case combine_loop cdc chapter_pause_duration progress_callback (length chunks) 0 chunks [] st of
        (Inl e, st1) \<Rightarrow> (Inl e, st1)
      | (Inr combined, st1) \<Rightarrow>
          (case call_callback progress_callback ''Audio combination complete'' (8 / 10) st1 of
             (Some e, st2) \<Rightarrow> (Inl e, st2)
           | (None, st2) \<Rightarrow> (Inr combined, st2)))"

text \<open>
  The number of places where the claim puts a silence (the labels of neighbours differ),
  the number of places where the code puts one, and the audio the code returns.
\<close>

fun spec_label_changes :: "AudioChunk list \<Rightarrow> nat" where
  "spec_label_changes (a # b # rest) =
     (if chunk_chapter a \<noteq> chunk_chapter b then 1 else 0) + spec_label_changes (b # rest)"
| "spec_label_changes _ = 0"

fun chapter_transitions :: "AudioChunk list \<Rightarrow> nat" where
  "chapter_transitions [] = 0"
| "chapter_transitions (a # rest) =
     (if pause_after a rest then 1 else 0) + chapter_transitions rest"

fun assembled :: "AudioChunk list \<Rightarrow> int \<Rightarrow> AudioSegment" where
  "assembled [] d = []"
| "assembled (a # rest) d =
     Clip (audio_data a) # (if pause_after a rest then [Silence d] else []) @ assembled rest d"

definition payloads :: "AudioSegment \<Rightarrow> bytes list" where
  "payloads seg = concat (map (\<lambda>c. case c of Clip b \<Rightarrow> [b] | Silence d \<Rightarrow> []) seg)"

section \<open>Text chunker (\<open>pdf_processor.py\<close>)\<close>

text \<open>
  \<open>re.split(r'[.!?]+', text)\<close> cuts the text at every maximal run of terminators and keeps
  the pieces, empty ones at the ends included.  The loop over the sentences carries the
  finished chunks and the current chunk; the inner loop over the words of a long sentence
  carries the same pair.  \<open>max_chunk_size\<close> is any integer.
\<close>

definition is_terminator :: "char \<Rightarrow> bool" where
  \<comment> \<open>the class \<open>[.!?]\<close>\<close>
  "is_terminator c = (c = CHR ''.'' \<or> c = CHR ''!'' \<or> c = CHR ''?'')"

fun re_split_from :: "bool \<Rightarrow> string \<Rightarrow> string list" where
  \<comment> \<open>the flag says that the character before was a terminator\<close>
  "re_split_from in_run [] = [[]]"
| "re_split_from in_run (c # cs) =
     (if is_terminator c
      then (if in_run then re_split_from True cs else [] # re_split_from True cs)
      else (case re_split_from False cs of p # ps \<Rightarrow> (c # p) # ps | [] \<Rightarrow> [[c]]))"

definition re_split_sentences :: "string \<Rightarrow> string list" where
  \<comment> \<open>\<open>re.split(r'[.!?]+', text)\<close>\<close>
  "re_split_sentences txt = re_split_from False txt"

type_synonym chunk_state = "string list \<times> string"

definition add_word :: "int \<Rightarrow> chunk_state \<Rightarrow> string \<Rightarrow> chunk_state" where
  "add_word max_chunk_size st word =
     (let (chunks, current_chunk) = st in
      if int (length current_chunk) + int (length word) > max_chunk_size
      then (if truthy current_chunk
            then (chunks @ [strip current_chunk], word)
            else (chunks @ [word], current_chunk))
      else (chunks, if truthy current_chunk then current_chunk @ '' '' @ word else word))"

definition add_sentence :: "int \<Rightarrow> chunk_state \<Rightarrow> string \<Rightarrow> chunk_state" where
  "add_sentence max_chunk_size st raw =
     (let (chunks, current_chunk) = st;
          sentence = strip raw in
      if \<not> truthy sentence then (chunks, current_chunk)
      else if int (length current_chunk) + int (length sentence) > max_chunk_size
      then (if truthy current_chunk
            then (chunks @ [strip current_chunk], sentence)
            else foldl (add_word max_chunk_size) (chunks, current_chunk) (split_ws sentence))
      else (chunks, if truthy current_chunk then current_chunk @ ''. '' @ sentence else sentence))"

definition chunk_text_for_tts :: "string \<Rightarrow> int \<Rightarrow> string list" where
  "chunk_text_for_tts txt max_chunk_size =
     (let (chunks, current_chunk) =
            foldl (add_sentence max_chunk_size) ([], []) (re_split_sentences txt)
      in if truthy current_chunk then chunks @ [strip current_chunk] else chunks)"

text \<open>
  The words of a text when the sentence terminators are read as blanks, and the text with
  its white space normalised: what the chunks are compared with.
\<close>

definition blanked :: "string \<Rightarrow> string" where
  "blanked s = map (\<lambda>c. if is_terminator c then CHR '' '' else c) s"

definition sentence_tokens :: "string \<Rightarrow> string list" where
  "sentence_tokens s = split_ws (blanked s)"

definition normalize_ws :: "string \<Rightarrow> string" where
  "normalize_ws s = join '' '' (split_ws s)"


text \<open>
  The words held by a state of the loop, and a word as \<open>str.split()\<close> gives it from a
  sentence: not empty, without white space and without terminators.
\<close>

definition tokens_state :: "chunk_state \<Rightarrow> string list" where
  "tokens_state st =
     (case st of (chunks, current_chunk) \<Rightarrow>
        concat (map sentence_tokens chunks) @ sentence_tokens current_chunk)"

definition plain_word :: "string \<Rightarrow> bool" where
  "plain_word w = (w \<noteq> [] \<and> (\<forall>c \<in> set w. \<not> is_space c \<and> \<not> is_terminator c))"

section \<open>Rate limiter (\<open>tts_services.py\<close>)\<close>

text \<open>
  \<open>OpenAITTSService\<close> and \<open>GoogleTTSService\<close> carry the same limiter: the cap
  \<open>requests_per_minute\<close> and the list \<open>request_times\<close>.  The clock is explicit: a call of
  \<open>_wait_for_rate_limit\<close> reads the time \<open>now\<close>, and returns how long it sleeps; the
  synthesis request is sent when the sleep is over.  Times are rational numbers of seconds.
\<close>

record rate_limiter =
  requests_per_minute :: nat
  request_times :: "rat list"

definition openai_limiter :: rate_limiter where
  "openai_limiter = \<lparr>requests_per_minute = 50, request_times = []\<rparr>"

definition google_limiter :: rate_limiter where
  "google_limiter = \<lparr>requests_per_minute = 100, request_times = []\<rparr>"

definition wait_for_rate_limit :: "rat \<Rightarrow> rate_limiter \<Rightarrow> exn + (rat \<times> rate_limiter)" where
  "wait_for_rate_limit now svc =
     (let times = filter (\<lambda>t. now - t < 60) (request_times svc) in
      if length times \<ge> requests_per_minute svc
      then (case times of
              [] \<Rightarrow> Inl (Exception ''list index out of range'')
            | oldest # _ \<Rightarrow>
                (let sleep_time = 60 - (now - oldest)
                 in Inr (if sleep_time > 0 then sleep_time else 0,
                         svc\<lparr>request_times := times @ [now]\<rparr>)))
      else Inr (0, svc\<lparr>request_times := times @ [now]\<rparr>))"

text \<open>
  The times at which the requests are sent, when \<open>_wait_for_rate_limit\<close> is called at the
  given times, and the number of them in the 60 seconds from \<open>start\<close>.
\<close>

fun requests_sent :: "rate_limiter \<Rightarrow> rat list \<Rightarrow> rat list" where
  "requests_sent svc [] = []"
| "requests_sent svc (now # calls) =
     (case wait_for_rate_limit now svc of
        Inl e \<Rightarrow> requests_sent svc calls
      | Inr (sleep_time, svc') \<Rightarrow> (now + sleep_time) # requests_sent svc' calls)"

definition in_window :: "rat \<Rightarrow> rat list \<Rightarrow> nat" where
  "in_window start sent = length (filter (\<lambda>t. start \<le> t \<and> t < start + 60) sent)"

section \<open>Job supervisor (\<open>app.py\<close>)\<close>

text \<open>
  \<open>process_conversion\<close> is modelled with everything inside the outer \<open>try\<close>, as the
  \<open>except\<close> clause and the \<open>return\<close> after the completion event require.  The state of a run
  is the job record, the list of what the run has emitted and slept so far, and two
  counters: how often the status of the job has been read, and how many synthesis calls
  have been made.  The outside of the supervisor is a \<open>world\<close>: the cancellation request of
  \<open>cancel_job\<close> (it is in effect from status read number \<open>cancel_at\<close> on), the document
  extraction and the MP3 export (they may raise, and depend on the pipeline attempt), the
  synthesis backend (by call number), the audio codec, the regular-expression helpers of
  the content filter, and the application configuration.  Progress values are rational
  numbers.  The tags of the exported file play no part.
\<close>

datatype job_status = Uploaded | Processing | Cancelled | Completed | Failed

record job =
  filename :: string
  upload_path :: string
  status :: job_status
  progress :: rat
  message :: string
  error :: "string option"
  output_file :: "string option"

datatype event =
    ProgressUpdate string rat
  | ConversionComplete string
  | ConversionError string
  | Slept nat
  | TtsRequest string

record TTSResponse =
  response_audio_data :: bytes
  response_format :: string
  response_duration :: "rat option"
  response_error :: "string option"

record settings =
  tts_service :: "string option"
  voice :: "string option"
  speed :: "rat option"

record app_config =
  flags :: config
  MAX_CHUNK_SIZE :: int
  CHAPTER_PAUSE_DURATION :: rat
  DEFAULT_TTS_SERVICE :: string
  OUTPUT_FOLDER :: string

record world =
  cancel_at :: "nat option"
  extract_text_from_pdf :: "nat \<Rightarrow> string \<Rightarrow> exn + PageContent list"
  page_scorers :: scorers
  clean_section_content :: "string \<Rightarrow> string"
  synthesize_speech :: "nat \<Rightarrow> string \<Rightarrow> string \<Rightarrow> string option \<Rightarrow> rat \<Rightarrow> exn + TTSResponse"
  audio_codec :: codec
  audio_export :: "nat \<Rightarrow> AudioSegment \<Rightarrow> string \<Rightarrow> exn option"
  app :: app_config

record run_state =
  the_job :: job
  events :: "event list"
  status_reads :: nat
  tts_calls :: nat

fun is_substring :: "string \<Rightarrow> string \<Rightarrow> bool" where
  \<comment> \<open>\<open>needle in hay\<close>\<close>
  "is_substring needle [] = (needle = [])"
| "is_substring needle (c # cs) =
     (take (length needle) (c # cs) = needle \<or> is_substring needle cs)"

definition should_keep_section :: "BookSection \<Rightarrow> config \<Rightarrow> bool" where
  "should_keep_section section cfg =
     (let title_lower = lower (title section);
          skip_titles =
            (if config_get cfg ''SKIP_ACKNOWLEDGMENTS''
             then [''acknowledgment'', ''dedication'', ''thanks''] else []) @
            (if config_get cfg ''SKIP_TOC''
             then [''contents'', ''table of contents''] else []) @
            (if config_get cfg ''SKIP_INDEX''
             then [''index'', ''bibliography'', ''references''] else [])
      in if list_ex (\<lambda>skip_title. is_substring skip_title title_lower) skip_titles then False
         else if length (split_ws (content section)) < 100 then False
         else True)"

definition filter_sections ::
  "(string \<Rightarrow> string) \<Rightarrow> BookSection list \<Rightarrow> config \<Rightarrow> BookSection list" where
  "filter_sections clean sections cfg =
     map (\<lambda>section. section\<lparr>content := clean (content section)\<rparr>)
       (filter (\<lambda>section. should_keep_section section cfg) sections)"


definition max_retries :: nat where "max_retries = 3"

definition max_tts_retries :: nat where "max_tts_retries = 3"

definition read_status :: "world \<Rightarrow> run_state \<Rightarrow> bool \<times> run_state" where
  \<comment> \<open>\<open>job.get("status") == "cancelled"\<close>, after the cancellation request if it has come\<close>
  "read_status w st =
     (let requested = (case cancel_at w of None \<Rightarrow> False | Some k \<Rightarrow> k \<le> status_reads st);
          j = (if requested then (the_job st)\<lparr>status := Cancelled\<rparr> else the_job st)
      in (status j = Cancelled, st\<lparr>the_job := j, status_reads := status_reads st + 1\<rparr>))"

definition update_progress :: "world \<Rightarrow> string \<Rightarrow> rat \<Rightarrow> run_state \<Rightarrow> exn option \<times> run_state" where
  "update_progress w msg prog st =
     (let st1 = st\<lparr>the_job := (the_job st)\<lparr>message := msg, progress := prog\<rparr>,
                   events := events st @ [ProgressUpdate msg prog]\<rparr>
      in case read_status w st1 of
           (True, st2) \<Rightarrow> (Some (Exception ''Job was cancelled by user''), st2)
         | (False, st2) \<Rightarrow> (None, st2))"

definition sleep :: "nat \<Rightarrow> run_state \<Rightarrow> run_state" where
  \<comment> \<open>\<open>time.sleep\<close>\<close>
  "sleep n st = st\<lparr>events := events st @ [Slept n]\<rparr>"

type_synonym text_chunk = "string \<times> string"

definition service_name :: "world \<Rightarrow> settings \<Rightarrow> string" where
  "service_name w sett =
     (case tts_service sett of None \<Rightarrow> DEFAULT_TTS_SERVICE (app w) | Some s \<Rightarrow> s)"

definition speed_of :: "settings \<Rightarrow> rat" where
  "speed_of sett = (case speed sett of None \<Rightarrow> 1 | Some x \<Rightarrow> x)"

definition tts_outcome :: "world \<Rightarrow> settings \<Rightarrow> text_chunk \<Rightarrow> nat \<Rightarrow> exn + AudioChunk" where
  \<comment> \<open>what the body of the inner \<open>try\<close> comes to when its synthesis call is call number \<open>k\<close>\<close>
  "tts_outcome w sett chunk k =
     (case synthesize_speech w k (fst chunk) (service_name w sett) (voice sett) (speed_of sett) of
        Inl e \<Rightarrow> Inl e
      | Inr response \<Rightarrow>
          (if truthy_opt (response_error response)
           then Inl (Exception (''TTS error: ''
                   @ (case response_error response of Some err \<Rightarrow> err | None \<Rightarrow> [])))
           else Inr \<lparr>audio_data = response_audio_data response, chunk_text = fst chunk,
                     chunk_chapter = Some (snd chunk), start_time = None, duration = None\<rparr>))"

definition tts_attempt ::
  "world \<Rightarrow> settings \<Rightarrow> text_chunk \<Rightarrow> run_state \<Rightarrow> (exn + AudioChunk) \<times> run_state" where
  "tts_attempt w sett chunk st =
     (tts_outcome w sett chunk (tts_calls st),
      st\<lparr>events := events st @ [TtsRequest (fst chunk)], tts_calls := tts_calls st + 1\<rparr>)"

function tts_retry_loop ::
  "world \<Rightarrow> settings \<Rightarrow> text_chunk \<Rightarrow> rat \<Rightarrow> nat \<Rightarrow> AudioChunk list \<Rightarrow> run_state
     \<Rightarrow> (exn + AudioChunk list) \<times> run_state" where
  "tts_retry_loop w sett chunk prog tts_retry_count audio_chunks st =
     (if tts_retry_count < max_tts_retries
      then (case tts_attempt w sett chunk st of
              (Inr audio_chunk, st1) \<Rightarrow> (Inr (audio_chunks @ [audio_chunk]), st1)
            | (Inl (Exception tts_error), st1) \<Rightarrow>
                (if tts_retry_count + 1 \<ge> max_tts_retries
                 then (Inl (Exception (''TTS failed after '' @ str_nat max_tts_retries
                                         @ '' retries: '' @ tts_error)), st1)
                 else (case update_progress w
                              (''TTS retry '' @ str_nat (tts_retry_count + 1) @ ''/''
                                 @ str_nat max_tts_retries @ '' in ''
                                 @ str_nat (2 ^ (tts_retry_count + 1)) @ ''s...'') prog st1 of
                         (Some e, st2) \<Rightarrow> (Inl e, st2)
                       | (None, st2) \<Rightarrow>
                           tts_retry_loop w sett chunk prog (tts_retry_count + 1) audio_chunks
                             (sleep (2 ^ (tts_retry_count + 1)) st2))))
      else (Inr audio_chunks, st))"
  by pat_completeness auto
termination
  by (relation "measure (\<lambda>(w, sett, chunk, prog, n, audio_chunks, st). max_tts_retries - n)") auto

declare tts_retry_loop.simps [simp del]

fun synthesize_chunks ::
  "world \<Rightarrow> settings \<Rightarrow> nat \<Rightarrow> nat \<Rightarrow> text_chunk list \<Rightarrow> AudioChunk list \<Rightarrow> run_state
     \<Rightarrow> (exn + AudioChunk list) \<times> run_state" where
  "synthesize_chunks w sett n i [] audio_chunks st = (Inr audio_chunks, st)"
| "synthesize_chunks w sett n i (chunk # rest) audio_chunks st =
     (case update_progress w
             (''Synthesizing speech '' @ str_nat (i + 1) @ ''/'' @ str_nat n)
             (5 / 10 + of_nat i / of_nat n * (3 / 10)) st of
        (Some e, st1) \<Rightarrow> (Inl e, st1)
      | (None, st1) \<Rightarrow>
          (case tts_retry_loop w sett chunk (5 / 10 + of_nat i / of_nat n * (3 / 10)) 0
                  audio_chunks st1 of
             (Inl e, st2) \<Rightarrow> (Inl e, st2)
           | (Inr audio_chunks', st2) \<Rightarrow> synthesize_chunks w sett n (i + 1) rest audio_chunks' st2))"

definition export_mp3 ::
  "(AudioSegment \<Rightarrow> string \<Rightarrow> exn option) \<Rightarrow> AudioSegment \<Rightarrow> string \<Rightarrow> 'st callback option \<Rightarrow> 'st
     \<Rightarrow> (exn + string) \<times> 'st" where
  "export_mp3 export audio output_path progress_callback st =
     (case call_callback progress_callback ''Exporting MP3...'' (8 / 10) st of
        (Some e, st1) \<Rightarrow> (Inl e, st1)
      | (None, st1) \<Rightarrow>
          (case export audio output_path of
             Some e \<Rightarrow> (Inl e, st1)
           | None \<Rightarrow>
               (case call_callback progress_callback ''Adding detailed metadata...'' (9 / 10) st1 of
                  (Some e, st2) \<Rightarrow> (Inl e, st2)
                | (None, st2) \<Rightarrow>
                    (case call_callback progress_callback ''Export complete'' 1 st2 of
                       (Some e, st3) \<Rightarrow> (Inl e, st3)
                     | (None, st3) \<Rightarrow> (Inr output_path, st3)))))"

definition rsplit_stem :: "string \<Rightarrow> string" where
  \<comment> \<open>\<open>s.rsplit('.', 1)[0]\<close>\<close>
  "rsplit_stem s =
     (if CHR ''.'' \<in> set s then rev (tl (dropWhile (\<lambda>c. c \<noteq> CHR ''.'') (rev s))) else s)"

definition path_join :: "string \<Rightarrow> string \<Rightarrow> string" where
  \<comment> \<open>\<open>os.path.join(a, b)\<close>\<close>
  "path_join a b =
     (if take 1 b = ''/'' then b
      else if a = [] \<or> last a = CHR ''/'' then a @ b
      else a @ ''/'' @ b)"

definition prepare_chunks ::
  "world \<Rightarrow> nat \<Rightarrow> run_state \<Rightarrow> (exn + text_chunk list) \<times> run_state" where
  "prepare_chunks w retry_count st =
     (case update_progress w ''Extracting text from PDF...'' (1 / 10) st of
        (Some e, st1) \<Rightarrow> (Inl e, st1)
      | (None, st1) \<Rightarrow>
     (case extract_text_from_pdf w retry_count (upload_path (the_job st1)) of
        Inl e \<Rightarrow> (Inl e, st1)
      | Inr pages \<Rightarrow>
     (case update_progress w ''Filtering content...'' (2 / 10) st1 of
        (Some e, st2) \<Rightarrow> (Inl e, st2)
      | (None, st2) \<Rightarrow>
     (let filtered_pages = filter_pages (page_scorers w) pages (flags (app w)) in
      case update_progress w ''Detecting chapters...'' (3 / 10) st2 of
        (Some e, st3) \<Rightarrow> (Inl e, st3)
      | (None, st3) \<Rightarrow>
     (let sections = detect_chapters filtered_pages;
          filtered_sections = filter_sections (clean_section_content w) sections (flags (app w)) in
      case update_progress w ''Preparing text for speech synthesis...'' (4 / 10) st3 of
        (Some e, st4) \<Rightarrow> (Inl e, st4)
      | (None, st4) \<Rightarrow>
     (let all_chunks =
            concat (map (\<lambda>section.
                           map (\<lambda>chunk_text. (chunk_text, title section))
                             (chunk_text_for_tts (content section) (MAX_CHUNK_SIZE (app w))))
                      filtered_sections) in
      case update_progress w
             (''Converting '' @ str_nat (length all_chunks) @ '' text chunks to speech...'')
             (5 / 10) st4 of
        (Some e, st5) \<Rightarrow> (Inl e, st5)
      | (None, st5) \<Rightarrow> (Inr all_chunks, st5)))))))"

definition assemble_and_export ::
  "world \<Rightarrow> string \<Rightarrow> nat \<Rightarrow> AudioChunk list \<Rightarrow> run_state \<Rightarrow> exn option \<times> run_state" where
  "assemble_and_export w job_id retry_count audio_chunks st =
     (case update_progress w ''Combining audio chunks...'' (8 / 10) st of
        (Some e, st1) \<Rightarrow> (Some e, st1)
      | (None, st1) \<Rightarrow>
     (case combine_audio_chunks (audio_codec w) audio_chunks (CHAPTER_PAUSE_DURATION (app w))
             (Some (\<lambda>msg prog. update_progress w msg (8 / 10 + prog * (15 / 100)))) st1 of
        (Inl e, st2) \<Rightarrow> (Some e, st2)
      | (Inr combined_audio, st2) \<Rightarrow>
     (case update_progress w ''Exporting final MP3...'' (95 / 100) st2 of
        (Some e, st3) \<Rightarrow> (Some e, st3)
      | (None, st3) \<Rightarrow>
     (let output_filename = job_id @ ''_'' @ rsplit_stem (filename (the_job st3)) @ ''.mp3'';
          output_path = path_join (OUTPUT_FOLDER (app w)) output_filename in
      case export_mp3 (audio_export w retry_count) combined_audio output_path
             (Some (\<lambda>msg prog. update_progress w msg (95 / 100 + prog * (5 / 100)))) st3 of
        (Inl e, st4) \<Rightarrow> (Some e, st4)
      | (Inr _, st4) \<Rightarrow>
          (None,
           st4\<lparr>the_job := (the_job st4)\<lparr>status := Completed, progress := 100,
                    message := ''Conversion completed successfully'',
                    output_file := Some output_path\<rparr>,
                events := events st4 @ [ConversionComplete output_filename]\<rparr>)))))"

definition run_pipeline ::
  "world \<Rightarrow> string \<Rightarrow> settings \<Rightarrow> nat \<Rightarrow> run_state \<Rightarrow> exn option \<times> run_state" where
  \<comment> \<open>the body of the outer \<open>try\<close>, after the test at its head\<close>
  "run_pipeline w job_id sett retry_count st =
     (case prepare_chunks w retry_count st of
        (Inl e, st1) \<Rightarrow> (Some e, st1)
      | (Inr all_chunks, st1) \<Rightarrow>
          (case synthesize_chunks w sett (length all_chunks) 0 all_chunks [] st1 of
             (Inl e, st2) \<Rightarrow> (Some e, st2)
           | (Inr audio_chunks, st2) \<Rightarrow> assemble_and_export w job_id retry_count audio_chunks st2))"

definition retry_message :: "nat \<Rightarrow> string" where
  \<comment> \<open>the message of the handler, from the count it has just incremented\<close>
  "retry_message retry_count =
     ''Retrying conversion in '' @ str_nat (5 * retry_count) @ ''s (attempt ''
       @ str_nat (retry_count + 1) @ ''/'' @ str_nat max_retries @ '')''"

function process_loop :: "world \<Rightarrow> string \<Rightarrow> settings \<Rightarrow> nat \<Rightarrow> run_state \<Rightarrow> run_state" where
  "process_loop w job_id sett retry_count st =
     (if retry_count < max_retries
      then (case read_status w st of
              (True, st0) \<Rightarrow> st0
            | (False, st0) \<Rightarrow>
                (case run_pipeline w job_id sett retry_count st0 of
                   (None, st1) \<Rightarrow> st1
                 | (Some (Exception e), st1) \<Rightarrow>
                     (if retry_count + 1 \<ge> max_retries
                      then st1\<lparr>the_job := (the_job st1)\<lparr>status := Failed, error := Some e,
                                  message := ''Conversion failed after '' @ str_nat max_retries
                                             @ '' attempts: '' @ e\<rparr>,
                               events := events st1 @ [ConversionError e]\<rparr>
                      else process_loop w job_id sett (retry_count + 1)
                             (sleep (5 * (retry_count + 1))
                                (st1\<lparr>the_job := (the_job st1)\<lparr>
                                         message := retry_message (retry_count + 1),
                                         progress := 0\<rparr>,
                                     events := events st1 @
                                       [ProgressUpdate (retry_message (retry_count + 1)) 0]\<rparr>)))))
      else st)"
  by pat_completeness auto
termination
  by (relation "measure (\<lambda>(w, job_id, sett, n, st). max_retries - n)") auto

declare process_loop.simps [simp del]

definition start_state :: "job \<Rightarrow> run_state" where
  "start_state j = \<lparr>the_job = j, events = [], status_reads = 0, tts_calls = 0\<rparr>"

definition process_conversion :: "world \<Rightarrow> string \<Rightarrow> settings \<Rightarrow> job \<Rightarrow> run_state" where
  "process_conversion w job_id sett j = process_loop w job_id sett 0 (start_state j)"

section \<open>Sample inputs\<close>

text \<open>
  A document of one page with a chapter heading and 103 words, a world in which every
  stage succeeds, a job as \<open>start_conversion\<close> leaves it, and empty settings.
\<close>

definition sample_page :: PageContent where
  "sample_page = \<lparr>page_number = 1,
      page_text = ''Chapter 1\<newline>'' @ concat (replicate 100 ''a '') @ ''end. Fin'',
      word_count = 103, has_images = False, font_sizes = []\<rparr>"

definition sample_world :: world where
  "sample_world = \<lparr>cancel_at = None,
     extract_text_from_pdf = (\<lambda>n path. Inr [sample_page]),
     page_scorers = \<lparr>calculate_keyword_score = (\<lambda>t ks. 0), calculate_toc_score = (\<lambda>t. 0)\<rparr>,
     clean_section_content = (\<lambda>s. s),
     synthesize_speech = (\<lambda>k t svc v sp. Inr \<lparr>response_audio_data = ''mp3'', response_format = ''mp3'',
                               response_duration = None, response_error = None\<rparr>),
     audio_codec = \<lparr>decode_error = (\<lambda>b. None), clip_ms = (\<lambda>b. 1000)\<rparr>,
     audio_export = (\<lambda>n a p. None),
     app = \<lparr>flags = (\<lambda>k. None), MAX_CHUNK_SIZE = 4000, CHAPTER_PAUSE_DURATION = 2,
            DEFAULT_TTS_SERVICE = ''openai'', OUTPUT_FOLDER = ''output''\<rparr>\<rparr>"

definition sample_job :: job where
  "sample_job = \<lparr>filename = ''book.pdf'', upload_path = ''uploads/j1_book.pdf'', status = Processing,
     progress = 0, message = [], error = None, output_file = None\<rparr>"

definition sample_settings :: settings where
  "sample_settings = \<lparr>tts_service = None, voice = None, speed = None\<rparr>"

text \<open>
  The document cannot be read on the first two pipeline attempts, and the user cancels the
  job during the third one, before status read number 5.
\<close>

definition cancelled_world :: world where
  "cancelled_world = sample_world\<lparr>cancel_at := Some 5,
     extract_text_from_pdf :=
       (\<lambda>n path. if n < 2 then Inl (Exception ''cannot open file'') else Inr [sample_page])\<rparr>"

text \<open>
  The backend call fails with an exception that has no message (\<open>str(e)\<close> is empty): the
  service answers with \<open>error=''\<close> and no audio.  Empty audio does not decode.
\<close>

definition silent_failure_world :: world where
  "silent_failure_world = sample_world\<lparr>
     synthesize_speech :=
       (\<lambda>k t svc v sp. Inr \<lparr>response_audio_data = [], response_format = ''mp3'',
                                response_duration = None, response_error = Some []\<rparr>),
     audio_codec :=
       \<lparr>decode_error = (\<lambda>b. if b = [] then Some ''could not decode audio'' else None),
        clip_ms = (\<lambda>b. 1000)\<rparr>\<rparr>"

text \<open>
  For the statements about the supervisor: the next \<open>k\<close> reads of the job status do not
  see a cancellation; and the state after a progress update that has not raised, after a
  synthesis call, and after the wait that follows failed attempt number \<open>n\<close> of a chunk.
\<close>

definition unseen :: "world \<Rightarrow> run_state \<Rightarrow> nat \<Rightarrow> bool" where
  "unseen w st k =
     (status (the_job st) \<noteq> Cancelled \<and>
      (case cancel_at w of None \<Rightarrow> True | Some c \<Rightarrow> status_reads st + k \<le> c))"

definition after_update :: "string \<Rightarrow> rat \<Rightarrow> run_state \<Rightarrow> run_state" where
  "after_update msg prog st =
     st\<lparr>the_job := (the_job st)\<lparr>message := msg, progress := prog\<rparr>,
        events := events st @ [ProgressUpdate msg prog],
        status_reads := status_reads st + 1\<rparr>"

definition after_call :: "string \<Rightarrow> run_state \<Rightarrow> run_state" where
  "after_call t st = st\<lparr>events := events st @ [TtsRequest t], tts_calls := tts_calls st + 1\<rparr>"

definition retry_note :: "nat \<Rightarrow> string" where
  "retry_note n =
     ''TTS retry '' @ str_nat n @ ''/'' @ str_nat max_tts_retries @ '' in '' @ str_nat (2 ^ n)
       @ ''s...''"

definition after_backoff :: "nat \<Rightarrow> string \<Rightarrow> rat \<Rightarrow> run_state \<Rightarrow> run_state" where
  "after_backoff n t prog st = sleep (2 ^ n) (after_update (retry_note n) prog (after_call t st))"

text \<open>
  What a finished run leaves: the status, progress and error of the job, and the seconds
  slept, in order.
\<close>

definition sleeps :: "event list \<Rightarrow> nat list" where
  "sleeps evs = concat (map (\<lambda>ev. case ev of Slept n \<Rightarrow> [n] | _ \<Rightarrow> []) evs)"

definition summary :: "run_state \<Rightarrow> job_status \<times> rat \<times> string option \<times> nat list" where
  "summary st =
     (status (the_job st), progress (the_job st), error (the_job st), sleeps (events st))"

definition outcome_report :: "'a \<times> run_state \<Rightarrow> 'a \<times> nat \<times> nat list" where
  \<comment> \<open>what a step returns, the number of synthesis calls made, and the seconds slept\<close>
  "outcome_report r = (fst r, tts_calls (snd r), sleeps (events (snd r)))"

section \<open>The page classifier drops short pages\<close>

text \<open>
  C9.  A page whose \<open>word_count\<close> is below 50 is dropped by \<open>analyze_page\<close> with reason
  \<open>Too few words\<close> and confidence 0.9, whatever the filter configuration, the scoring
  helpers and the rest of the page are: no other rule takes part in the result.
\<close>

theorem analyze_page_too_few_words:
  assumes "word_count page < 50"
  shows "analyze_page sc page cfg
           = \<lparr>should_skip = True, reason = ''Too few words'', confidence = 9 / 10\<rparr>"
  using assms by (simp add: analyze_page_def)

theorem analyze_page_too_few_words_witness:
  "analyze_page \<lparr>calculate_keyword_score = (\<lambda>t ks. 1), calculate_toc_score = (\<lambda>t. 1)\<rparr>
      \<lparr>page_number = 2, page_text = ''Acknowledgments thanks to everyone'', word_count = 4,
       has_images = False, font_sizes = [12]\<rparr>
      (\<lambda>k. None)
     = \<lparr>should_skip = True, reason = ''Too few words'', confidence = 9 / 10\<rparr>"
  by (rule analyze_page_too_few_words) simp

section \<open>The chapter segmenter\<close>

lemma ranges_ok_snoc:
  "ranges_ok secs \<Longrightarrow> start_page c \<le> end_page c \<Longrightarrow> \<forall>s \<in> set secs. end_page s < start_page c
     \<Longrightarrow> ranges_ok (secs @ [c])"
  by (auto simp: ranges_ok_def sorted_wrt_append)

lemma detect_page_inv:
  assumes "detect_inv b st" and "b < page_number page"
  shows "detect_inv (page_number page) (detect_page st page)"
proof (cases st)
  case (Pair secs cur)
  show ?thesis
  proof (cases "first_match chapter_patterns (page_text page)")
    case None
    with Pair assms show ?thesis
      by (cases cur) (auto simp: detect_inv_def detect_page_def)
  next
    case (Some pos)
    show ?thesis
    proof (cases cur)
      case None
      with Pair Some assms show ?thesis
        by (auto simp: detect_inv_def detect_page_def ranges_ok_def)
    next
      case (Some c)
      from Pair Some assms have ok: "ranges_ok secs"
        and lt: "\<forall>s \<in> set secs. end_page s < start_page c"
        and le: "start_page c \<le> b"
        by (auto simp: detect_inv_def)
      have "ranges_ok (secs @ [c\<lparr>end_page := page_number page - 1\<rparr>])"
        using ok lt le assms(2) by (intro ranges_ok_snoc) auto
      moreover have "\<forall>s \<in> set (secs @ [c\<lparr>end_page := page_number page - 1\<rparr>]).
                       end_page s < page_number page"
        using lt le assms(2) by auto
      ultimately show ?thesis
        using Pair Some \<open>first_match chapter_patterns (page_text page) = Some pos\<close>
        by (simp add: detect_inv_def detect_page_def)
    qed
  qed
qed

lemma foldl_detect_inv:
  assumes "detect_inv b st"
    and "sorted_wrt (<) (map page_number pages)"
    and "\<forall>p \<in> set pages. b < page_number p"
  shows "detect_inv (if pages = [] then b else page_number (last pages))
           (foldl detect_page st pages)"
  using assms
proof (induction pages arbitrary: b st)
  case Nil
  then show ?case by simp
next
  case (Cons p ps)
  have step: "detect_inv (page_number p) (detect_page st p)"
    using Cons.prems by (intro detect_page_inv) auto
  have "detect_inv (if ps = [] then page_number p else page_number (last ps))
          (foldl detect_page (detect_page st p) ps)"
    using Cons.prems by (intro Cons.IH step) auto
  with step show ?case by (auto split: if_splits)
qed

lemma detect_chapters_ranges_ok:
  assumes "sorted_wrt (<) (map page_number pages)"
  shows "ranges_ok (detect_chapters pages)"
proof (cases pages)
  case Nil
  then show ?thesis by (simp add: detect_chapters_def ranges_ok_def)
next
  case (Cons p ps)
  have init: "detect_inv (page_number p - 1) ([], None)"
    by (simp add: detect_inv_def ranges_ok_def)
  have "\<forall>q \<in> set pages. page_number p - 1 < page_number q"
    using assms Cons by auto
  from foldl_detect_inv [OF init assms this] Cons
  have inv: "detect_inv (page_number (last pages)) (foldl detect_page ([], None) pages)"
    by simp
  obtain secs cur where st: "foldl detect_page ([], None) pages = (secs, cur)"
    by (cases "foldl detect_page ([], None) pages")
  show ?thesis
  proof (cases cur)
    case None
    with inv st show ?thesis by (simp add: detect_chapters_def detect_inv_def ranges_ok_def)
  next
    case (Some c)
    with inv st have "ranges_ok secs" "\<forall>s \<in> set secs. end_page s < start_page c"
      "start_page c \<le> page_number (last pages)"
      by (auto simp: detect_inv_def)
    then have "ranges_ok (secs @ [c\<lparr>end_page := page_number (last pages)\<rparr>])"
      by (intro ranges_ok_snoc) auto
    with st Some show ?thesis by (simp add: detect_chapters_def)
  qed
qed

text \<open>
  C7.  When the page numbers of the pages are strictly ascending, every section returned by
  \<open>detect_chapters\<close> has \<open>start_page \<le> end_page\<close>, and each section ends before the next
  one starts: the inclusive page ranges are strictly ascending and do not overlap.
\<close>

theorem detect_chapters_ranges:
  assumes "sorted_wrt (<) (map page_number pages)"
  shows "(\<forall>s \<in> set (detect_chapters pages). start_page s \<le> end_page s) \<and>
         sorted_wrt (\<lambda>a b. end_page a < start_page b) (detect_chapters pages)"
  using detect_chapters_ranges_ok [OF assms] by (simp add: ranges_ok_def)

theorem detect_chapters_ranges_witness:
  "sorted_wrt (<) (map page_number
      [\<lparr>page_number = 1, page_text = ''Preface'', word_count = 1, has_images = False, font_sizes = []\<rparr>,
       \<lparr>page_number = 2, page_text = ''Chapter 1\<newline>One'', word_count = 3, has_images = False, font_sizes = []\<rparr>,
       \<lparr>page_number = 4, page_text = ''more'', word_count = 1, has_images = False, font_sizes = []\<rparr>,
       \<lparr>page_number = 5, page_text = ''PART II\<newline>Two'', word_count = 3, has_images = False, font_sizes = []\<rparr>]) \<and>
   map (\<lambda>s. (start_page s, end_page s)) (detect_chapters
      [\<lparr>page_number = 1, page_text = ''Preface'', word_count = 1, has_images = False, font_sizes = []\<rparr>,
       \<lparr>page_number = 2, page_text = ''Chapter 1\<newline>One'', word_count = 3, has_images = False, font_sizes = []\<rparr>,
       \<lparr>page_number = 4, page_text = ''more'', word_count = 1, has_images = False, font_sizes = []\<rparr>,
       \<lparr>page_number = 5, page_text = ''PART II\<newline>Two'', word_count = 3, has_images = False, font_sizes = []\<rparr>])
     = [(2, 4), (5, 5)] \<and>
   sorted_wrt (\<lambda>a b. end_page a < start_page b) (detect_chapters
      [\<lparr>page_number = 1, page_text = ''Preface'', word_count = 1, has_images = False, font_sizes = []\<rparr>,
       \<lparr>page_number = 2, page_text = ''Chapter 1\<newline>One'', word_count = 3, has_images = False, font_sizes = []\<rparr>,
       \<lparr>page_number = 4, page_text = ''more'', word_count = 1, has_images = False, font_sizes = []\<rparr>,
       \<lparr>page_number = 5, page_text = ''PART II\<newline>Two'', word_count = 3, has_images = False, font_sizes = []\<rparr>])"
proof -
  let ?pages =
     "[\<lparr>page_number = 1, page_text = ''Preface'', word_count = 1, has_images = False, font_sizes = []\<rparr>,
       \<lparr>page_number = 2, page_text = ''Chapter 1\<newline>One'', word_count = 3, has_images = False, font_sizes = []\<rparr>,
       \<lparr>page_number = 4, page_text = ''more'', word_count = 1, has_images = False, font_sizes = []\<rparr>,
       \<lparr>page_number = 5, page_text = ''PART II\<newline>Two'', word_count = 3, has_images = False, font_sizes = []\<rparr>]"
  have asc: "sorted_wrt (<) (map page_number ?pages)" by simp
  have val: "map (\<lambda>s. (start_page s, end_page s)) (detect_chapters ?pages) = [(2, 4), (5, 5)]"
    by code_simp
  from detect_chapters_ranges [OF asc] asc val show ?thesis by blast
qed



lemma detect_page_no_heading:
  "\<not> heading_page page \<Longrightarrow> detect_page ([], None) page = ([], None)"
  by (simp add: heading_page_def detect_page_def)

lemma foldl_detect_no_heading:
  "\<forall>p \<in> set pre. \<not> heading_page p \<Longrightarrow> foldl detect_page ([], None) pre = ([], None)"
  by (induction pre) (simp_all add: detect_page_no_heading)

lemma detect_chapters_skip_prefix:
  assumes "\<forall>p \<in> set pre. \<not> heading_page p"
  shows "detect_chapters (pre @ rest) = detect_chapters rest"
proof (cases "rest = []")
  case True
  with assms show ?thesis
    by (simp add: detect_chapters_def foldl_detect_no_heading)
next
  case False
  then have "last (pre @ rest) = last rest" by simp
  with assms show ?thesis
    by (cases "foldl detect_page ([], None) rest")
       (simp add: detect_chapters_def foldl_detect_no_heading split: option.splits)
qed


lemma detect_page_open:
  "\<exists>secs' c'. detect_page (secs, Some c) page = (secs', Some c') \<and>
      all_content (secs', Some c') = all_content (secs, Some c) @ page_line page"
  by (cases "first_match chapter_patterns (page_text page)")
     (auto simp: detect_page_def all_content_def page_line_def)

lemma foldl_detect_open:
  "\<exists>secs' c'. foldl detect_page (secs, Some c) pages = (secs', Some c') \<and>
      all_content (secs', Some c') = all_content (secs, Some c) @ concat (map page_line pages)"
proof (induction pages arbitrary: secs c)
  case Nil
  then show ?case by simp
next
  case (Cons p ps)
  obtain secs1 c1 where 1: "detect_page (secs, Some c) p = (secs1, Some c1)"
    "all_content (secs1, Some c1) = all_content (secs, Some c) @ page_line p"
    using detect_page_open by blast
  obtain secs2 c2 where 2: "foldl detect_page (secs1, Some c1) ps = (secs2, Some c2)"
    "all_content (secs2, Some c2) = all_content (secs1, Some c1) @ concat (map page_line ps)"
    using Cons.IH by blast
  with 1 2 show ?case by simp
qed

lemma detect_page_heading:
  "heading_page page \<Longrightarrow>
     \<exists>c. detect_page ([], None) page = ([], Some c) \<and> content c = page_line page"
  by (auto simp: heading_page_def detect_page_def page_line_def)

lemma foldl_detect_content:
  "all_content (foldl detect_page ([], None) pages)
     = concat (map page_line (dropWhile (\<lambda>p. \<not> heading_page p) pages))"
proof (induction pages)
  case Nil
  then show ?case by (simp add: all_content_def)
next
  case (Cons p ps)
  show ?case
  proof (cases "heading_page p")
    case False
    with Cons show ?thesis by (simp add: detect_page_no_heading)
  next
    case True
    then obtain c where c: "detect_page ([], None) p = ([], Some c)" "content c = page_line p"
      using detect_page_heading by blast
    obtain secs' c' where "foldl detect_page ([], Some c) ps = (secs', Some c')"
      "all_content (secs', Some c') = all_content ([], Some c) @ concat (map page_line ps)"
      using foldl_detect_open by blast
    with True c show ?thesis by (simp add: all_content_def)
  qed
qed

lemma detect_chapters_content:
  "concat (map content (detect_chapters pages))
     = concat (map page_line (dropWhile (\<lambda>p. \<not> heading_page p) pages))"
proof -
  obtain secs cur where st: "foldl detect_page ([], None) pages = (secs, cur)"
    by (cases "foldl detect_page ([], None) pages")
  have "concat (map content (detect_chapters pages)) = all_content (secs, cur)"
    using st by (cases cur) (simp_all add: detect_chapters_def all_content_def)
  with st foldl_detect_content [of pages] show ?thesis by simp
qed

lemma detect_page_starts:
  "starts_in N st \<Longrightarrow> starts_in (insert (page_number page) N) (detect_page st page)"
  by (cases st; cases "snd st"; cases "first_match chapter_patterns (page_text page)")
     (auto simp: starts_in_def detect_page_def)

lemma foldl_detect_starts:
  "starts_in N st \<Longrightarrow> starts_in (N \<union> page_number ` set pages) (foldl detect_page st pages)"
proof (induction pages arbitrary: N st)
  case Nil
  then show ?case by simp
next
  case (Cons p ps)
  from Cons.IH [OF detect_page_starts [OF Cons.prems, of p]]
  show ?case by simp
qed

lemma detect_chapters_starts:
  "s \<in> set (detect_chapters pages) \<Longrightarrow> start_page s \<in> page_number ` set pages"
proof -
  assume s: "s \<in> set (detect_chapters pages)"
  have "starts_in {} ([], None)" by (simp add: starts_in_def)
  from foldl_detect_starts [OF this, of pages]
  have "starts_in (page_number ` set pages) (foldl detect_page ([], None) pages)" by simp
  with s show ?thesis
    by (cases "foldl detect_page ([], None) pages")
       (auto simp: detect_chapters_def starts_in_def split: option.splits)
qed

text \<open>
  C10 as stated fails for the page ranges: a range goes from the page number of its heading
  page to the page number before the next heading page, or to that of the last page, so
  when the page numbers do not ascend a page in front of the first heading can lie inside
  a range.
\<close>

theorem detect_chapters_front_matter_counterexample:
  "\<not> heading_page \<lparr>page_number = 5, page_text = ''Preface'', word_count = 1,
                     has_images = False, font_sizes = []\<rparr> \<and>
   detect_chapters
     [\<lparr>page_number = 5, page_text = ''Preface'', word_count = 1, has_images = False, font_sizes = []\<rparr>,
      \<lparr>page_number = 1, page_text = ''Chapter 1\<newline>One'', word_count = 3, has_images = False, font_sizes = []\<rparr>,
      \<lparr>page_number = 9, page_text = ''more'', word_count = 1, has_images = False, font_sizes = []\<rparr>]
     = [\<lparr>title = ''Chapter 1 One'', start_page = 1, end_page = 9,
         content = ''Chapter 1\<newline>One\<newline>more\<newline>'', section_type = ''chapter''\<rparr>] \<and>
   (1 :: int) \<le> 5 \<and> (5 :: int) \<le> 9"
  by code_simp

text \<open>
  C10 (amended).  Pages in front of the first page with a heading leave no trace in the
  result of \<open>detect_chapters\<close>, for every list of pages: the sections are those of the
  remaining pages alone, and the contents of the sections are made of the texts of the
  pages from the first heading on.  When the page numbers are strictly ascending, every
  section starts after each of the leading pages, so that no page range contains one of
  them.
\<close>

theorem detect_chapters_drops_front_matter:
  assumes "\<forall>p \<in> set pre. \<not> heading_page p"
  shows "detect_chapters (pre @ rest) = detect_chapters rest \<and>
         concat (map content (detect_chapters (pre @ rest)))
           = concat (map page_line (dropWhile (\<lambda>p. \<not> heading_page p) rest)) \<and>
         (sorted_wrt (<) (map page_number (pre @ rest)) \<longrightarrow>
           (\<forall>s \<in> set (detect_chapters (pre @ rest)). \<forall>p \<in> set pre.
              page_number p < start_page s))"
proof (intro conjI impI)
  show eq: "detect_chapters (pre @ rest) = detect_chapters rest"
    using assms by (rule detect_chapters_skip_prefix)
  show "concat (map content (detect_chapters (pre @ rest)))
           = concat (map page_line (dropWhile (\<lambda>p. \<not> heading_page p) rest))"
    by (simp add: eq detect_chapters_content)
  assume asc: "sorted_wrt (<) (map page_number (pre @ rest))"
  show "\<forall>s \<in> set (detect_chapters (pre @ rest)). \<forall>p \<in> set pre. page_number p < start_page s"
  proof (intro ballI)
    fix s p
    assume "s \<in> set (detect_chapters (pre @ rest))" and p: "p \<in> set pre"
    then have "start_page s \<in> page_number ` set rest"
      using eq detect_chapters_starts by simp
    then obtain q where "q \<in> set rest" "start_page s = page_number q" by auto
    with asc p show "page_number p < start_page s"
      by (auto simp: sorted_wrt_append)
  qed
qed

theorem detect_chapters_drops_front_matter_witness:
  "detect_chapters
     ([\<lparr>page_number = 1, page_text = ''Title page'', word_count = 2, has_images = False, font_sizes = []\<rparr>,
       \<lparr>page_number = 2, page_text = ''A preface'', word_count = 2, has_images = False, font_sizes = []\<rparr>] @
      [\<lparr>page_number = 3, page_text = ''Chapter 1\<newline>One'', word_count = 3, has_images = False, font_sizes = []\<rparr>,
       \<lparr>page_number = 4, page_text = ''more'', word_count = 1, has_images = False, font_sizes = []\<rparr>])
     = [\<lparr>title = ''Chapter 1 One'', start_page = 3, end_page = 4,
         content = ''Chapter 1\<newline>One\<newline>more\<newline>'', section_type = ''chapter''\<rparr>] \<and>
   list_all (\<lambda>s. 2 < start_page s) (detect_chapters
     ([\<lparr>page_number = 1, page_text = ''Title page'', word_count = 2, has_images = False, font_sizes = []\<rparr>,
       \<lparr>page_number = 2, page_text = ''A preface'', word_count = 2, has_images = False, font_sizes = []\<rparr>] @
      [\<lparr>page_number = 3, page_text = ''Chapter 1\<newline>One'', word_count = 3, has_images = False, font_sizes = []\<rparr>,
       \<lparr>page_number = 4, page_text = ''more'', word_count = 1, has_images = False, font_sizes = []\<rparr>]))"
proof -
  let ?pre =
     "[\<lparr>page_number = 1, page_text = ''Title page'', word_count = 2, has_images = False, font_sizes = []\<rparr>,
       \<lparr>page_number = 2, page_text = ''A preface'', word_count = 2, has_images = False, font_sizes = []\<rparr>]"
  let ?rest =
     "[\<lparr>page_number = 3, page_text = ''Chapter 1\<newline>One'', word_count = 3, has_images = False, font_sizes = []\<rparr>,
       \<lparr>page_number = 4, page_text = ''more'', word_count = 1, has_images = False, font_sizes = []\<rparr>]"
  have front: "\<forall>p \<in> set ?pre. \<not> heading_page p" by code_simp
  have asc: "sorted_wrt (<) (map page_number (?pre @ ?rest))" by simp
  have val: "detect_chapters ?rest
     = [\<lparr>title = ''Chapter 1 One'', start_page = 3, end_page = 4,
         content = ''Chapter 1\<newline>One\<newline>more\<newline>'', section_type = ''chapter''\<rparr>]"
    by code_simp
  from detect_chapters_drops_front_matter [OF front, of ?rest] asc val
  show ?thesis by (simp add: list_all_iff)
qed

section \<open>The audio assembler\<close>

lemma combine_loop_result:
  "combine_loop cdc pause cb total_chunks i chunks combined st = (Inr audio, st')
     \<Longrightarrow> audio = combined @ assembled chunks (int_trunc (pause * 1000))"
proof (induction chunks arbitrary: i combined st)
  case Nil
  then show ?case by simp
next
  case (Cons c rest)
  from Cons.prems obtain st1 where
    dec: "decode_error cdc (audio_data c) = None" and
    rec: "combine_loop cdc pause cb total_chunks (i + 1) rest
            (if pause_after c rest
             then (combined @ [Clip (audio_data c)]) @ silent (int_trunc (pause * 1000))
             else combined @ [Clip (audio_data c)]) st1 = (Inr audio, st')"
    by (auto simp: from_file_def split: prod.splits option.splits sum.splits)
  from Cons.IH [OF rec] show ?case
    by (simp add: silent_def)
qed

lemma combine_loop_returns:
  "\<forall>c \<in> set chunks. decode_error cdc (audio_data c) = None
     \<Longrightarrow> \<exists>audio. combine_loop cdc pause None total_chunks i chunks combined st = (Inr audio, st)"
  by (induction chunks arbitrary: i combined) (auto simp: call_callback_def from_file_def)

lemma payloads_assembled: "payloads (assembled chunks d) = map audio_data chunks"
  by (induction chunks) (auto simp: payloads_def)

lemma segment_ms_assembled:
  "segment_ms cdc (assembled chunks d)
     = sum_list (map (\<lambda>c. clip_ms cdc (audio_data c)) chunks) + nat d * chapter_transitions chunks"
  by (induction chunks) (auto simp: segment_ms_def)

text \<open>
  C8 (amended).  Whenever \<open>combine_audio_chunks\<close> returns, the audio is the chunk
  payloads in input order, with a silence of \<open>int(chapter_pause_duration * 1000)\<close>
  milliseconds after every chunk that has a successor and whose chapter label and the
  successor's label are both present, not empty, and different.  Its length is the sum of
  the payload lengths plus that silence for each such place.  It does return when called
  without a callback on payloads that decode.
\<close>

theorem combine_audio_chunks_assembled:
  "(combine_audio_chunks cdc chunks pause cb st = (Inr audio, st') \<longrightarrow>
      audio = assembled chunks (int_trunc (pause * 1000)) \<and>
      payloads audio = map audio_data chunks \<and>
      segment_ms cdc audio
        = sum_list (map (\<lambda>c. clip_ms cdc (audio_data c)) chunks)
          + nat (int_trunc (pause * 1000)) * chapter_transitions chunks) \<and>
   ((\<forall>c \<in> set chunks. decode_error cdc (audio_data c) = None) \<longrightarrow>
      (\<exists>audio. combine_audio_chunks cdc chunks pause None st = (Inr audio, st)))"
proof (intro conjI impI)
  assume r: "combine_audio_chunks cdc chunks pause cb st = (Inr audio, st')"
  then obtain st1 where "combine_loop cdc pause cb (length chunks) 0 chunks [] st = (Inr audio, st1)"
    by (auto simp: combine_audio_chunks_def split: prod.splits sum.splits option.splits)
  from combine_loop_result [OF this]
  show a: "audio = assembled chunks (int_trunc (pause * 1000))" by simp
  show "payloads audio = map audio_data chunks" by (simp add: a payloads_assembled)
  show "segment_ms cdc audio
        = sum_list (map (\<lambda>c. clip_ms cdc (audio_data c)) chunks)
          + nat (int_trunc (pause * 1000)) * chapter_transitions chunks"
    by (simp add: a segment_ms_assembled)
next
  assume "\<forall>c \<in> set chunks. decode_error cdc (audio_data c) = None"
  from combine_loop_returns [OF this, of pause "length chunks" 0 "[]" st]
  show "\<exists>audio. combine_audio_chunks cdc chunks pause None st = (Inr audio, st)"
    by (auto simp: combine_audio_chunks_def call_callback_def)
qed


theorem combine_audio_chunks_assembled_witness:
  "combine_audio_chunks \<lparr>decode_error = (\<lambda>b. None), clip_ms = (\<lambda>b. 1000 * length b)\<rparr>
     [\<lparr>audio_data = ''aa'', chunk_text = ''x'', chunk_chapter = Some ''Chapter 1'', start_time = None, duration = None\<rparr>,
      \<lparr>audio_data = ''b'', chunk_text = ''y'', chunk_chapter = Some ''Chapter 1'', start_time = None, duration = None\<rparr>,
      \<lparr>audio_data = ''c'', chunk_text = ''z'', chunk_chapter = Some ''Chapter 2'', start_time = None, duration = None\<rparr>]
     2 None ()
     = (Inr [Clip ''aa'', Clip ''b'', Silence 2000, Clip ''c''], ()) \<and>
   segment_ms \<lparr>decode_error = (\<lambda>b. None), clip_ms = (\<lambda>b. 1000 * length b)\<rparr>
     [Clip ''aa'', Clip ''b'', Silence 2000, Clip ''c''] = 4000 + 2000 * 1"
proof -
  let ?cdc = "\<lparr>decode_error = (\<lambda>b. None), clip_ms = (\<lambda>b. 1000 * length b)\<rparr>"
  let ?chunks =
    "[\<lparr>audio_data = ''aa'', chunk_text = ''x'', chunk_chapter = Some ''Chapter 1'', start_time = None, duration = None\<rparr>,
      \<lparr>audio_data = ''b'', chunk_text = ''y'', chunk_chapter = Some ''Chapter 1'', start_time = None, duration = None\<rparr>,
      \<lparr>audio_data = ''c'', chunk_text = ''z'', chunk_chapter = Some ''Chapter 2'', start_time = None, duration = None\<rparr>]"
  let ?audio = "[Clip ''aa'', Clip ''b'', Silence 2000, Clip ''c'']"
  have run: "combine_audio_chunks ?cdc ?chunks 2 None () = (Inr ?audio, ())"
    by code_simp
  have dec: "\<forall>c \<in> set ?chunks. decode_error ?cdc (audio_data c) = None"
    by simp
  have n: "chapter_transitions ?chunks = 1" "nat (int_trunc (2 * 1000)) = 2000"
    by (simp_all add: pause_after_def truthy_opt_def truthy_def int_trunc_def)
  have total_ms: "sum_list (map (\<lambda>c. clip_ms ?cdc (audio_data c)) ?chunks) = 4000"
    by simp
  from combine_audio_chunks_assembled [of ?cdc ?chunks 2 None "()" ?audio "()"] run dec
  have "segment_ms ?cdc ?audio
          = sum_list (map (\<lambda>c. clip_ms ?cdc (audio_data c)) ?chunks)
            + nat (int_trunc (2 * 1000)) * chapter_transitions ?chunks"
    by blast
  then have "segment_ms ?cdc ?audio = 4000 + 2000 * 1"
    unfolding n total_ms .
  with run show ?thesis by blast
qed

text \<open>
  C8 as stated fails: a chunk without a chapter label between two chapters has a label
  different from both neighbours, and no silence is inserted on either side.
\<close>

theorem combine_audio_chunks_counterexample:
  "spec_label_changes
     [\<lparr>audio_data = ''aa'', chunk_text = ''x'', chunk_chapter = Some ''Chapter 1'', start_time = None, duration = None\<rparr>,
      \<lparr>audio_data = ''b'', chunk_text = ''y'', chunk_chapter = None, start_time = None, duration = None\<rparr>,
      \<lparr>audio_data = ''c'', chunk_text = ''z'', chunk_chapter = Some ''Chapter 2'', start_time = None, duration = None\<rparr>]
     = 2 \<and>
   combine_audio_chunks \<lparr>decode_error = (\<lambda>b. None), clip_ms = (\<lambda>b. 1000 * length b)\<rparr>
     [\<lparr>audio_data = ''aa'', chunk_text = ''x'', chunk_chapter = Some ''Chapter 1'', start_time = None, duration = None\<rparr>,
      \<lparr>audio_data = ''b'', chunk_text = ''y'', chunk_chapter = None, start_time = None, duration = None\<rparr>,
      \<lparr>audio_data = ''c'', chunk_text = ''z'', chunk_chapter = Some ''Chapter 2'', start_time = None, duration = None\<rparr>]
     2 None ()
     = (Inr [Clip ''aa'', Clip ''b'', Clip ''c''], ()) \<and>
   segment_ms \<lparr>decode_error = (\<lambda>b. None), clip_ms = (\<lambda>b. 1000 * length b)\<rparr>
     [Clip ''aa'', Clip ''b'', Clip ''c''] = 4000 \<and>
   (4000 :: nat) \<noteq> 4000 + 2000 * 2"
  by code_simp

section \<open>The text chunker\<close>

lemma split_ws_from_space:
  "is_space c \<Longrightarrow> split_ws_from w (a @ c # b) = split_ws_from w a @ split_ws_from [] b"
  by (induction a arbitrary: w) auto

lemma split_ws_from_spaces_right:
  "\<forall>c \<in> set r. is_space c \<Longrightarrow> split_ws_from w (a @ r) = split_ws_from w a"
proof (induction r arbitrary: a)
  case Nil
  then show ?case by simp
next
  case (Cons c r)
  have "split_ws_from w (a @ c # r) = split_ws_from w ((a @ [c]) @ r)" by simp
  also have "\<dots> = split_ws_from w (a @ [c])"
    using Cons.prems by (intro Cons.IH) simp
  also have "\<dots> = split_ws_from w a"
    using Cons.prems split_ws_from_space [of c w a "[]"] by simp
  finally show ?case .
qed

lemma split_ws_spaces_left:
  "\<forall>c \<in> set l. is_space c \<Longrightarrow> split_ws_from [] (l @ a) = split_ws_from [] a"
  by (induction l) auto

lemma strip_decomp:
  "\<exists>l r. s = l @ strip s @ r \<and> (\<forall>c \<in> set l. is_space c) \<and> (\<forall>c \<in> set r. is_space c)"
proof -
  let ?m = "dropWhile is_space s"
  have 1: "s = takeWhile is_space s @ ?m" by simp
  have 2: "?m = rev (dropWhile is_space (rev ?m)) @ rev (takeWhile is_space (rev ?m))"
    by (metis rev_append rev_rev_ident takeWhile_dropWhile_id)
  have l: "\<forall>c \<in> set (takeWhile is_space s). is_space c"
    by (auto dest: set_takeWhileD)
  have r: "\<forall>c \<in> set (rev (takeWhile is_space (rev ?m))). is_space c"
    by (auto dest: set_takeWhileD)
  have "s = takeWhile is_space s @ strip s @ rev (takeWhile is_space (rev ?m))"
    using 1 2 by (simp add: strip_def lstrip_def rstrip_def)
  with l r show ?thesis by blast
qed

lemma space_not_terminator: "is_space c \<Longrightarrow> \<not> is_terminator c"
  by (auto simp: is_space_def is_terminator_def)

lemma sentence_tokens_strip: "sentence_tokens (strip s) = sentence_tokens s"
proof -
  let ?f = "\<lambda>c. if is_terminator c then CHR '' '' else c"
  obtain l r where d: "s = l @ strip s @ r" and l: "\<forall>c \<in> set l. is_space c"
    and r: "\<forall>c \<in> set r. is_space c"
    using strip_decomp by blast
  have l': "\<forall>c \<in> set (map ?f l). is_space c" and r': "\<forall>c \<in> set (map ?f r). is_space c"
    using l r by (auto simp: space_not_terminator)
  have "sentence_tokens s = split_ws_from [] (map ?f l @ (map ?f (strip s) @ map ?f r))"
    by (subst d) (simp add: sentence_tokens_def blanked_def split_ws_def)
  also have "\<dots> = split_ws_from [] (map ?f (strip s) @ map ?f r)"
    using l' by (rule split_ws_spaces_left)
  also have "\<dots> = split_ws_from [] (map ?f (strip s))"
    using r' by (rule split_ws_from_spaces_right)
  finally show ?thesis by (simp add: sentence_tokens_def blanked_def split_ws_def)
qed

lemma is_space_blank: "is_space (CHR '' '')"
  by (simp add: is_space_def)

lemma sentence_tokens_join:
  "sentence_tokens (a @ CHR '' '' # b) = sentence_tokens a @ sentence_tokens b"
  "sentence_tokens (a @ CHR ''.'' # CHR '' '' # b) = sentence_tokens a @ sentence_tokens b"
  by (simp_all add: sentence_tokens_def blanked_def split_ws_def split_ws_from_space is_space_blank
        is_terminator_def)

lemma split_ws_Nil: "split_ws [] = []"
  by (simp add: split_ws_def)

lemma sentence_tokens_Nil: "sentence_tokens [] = []"
  by (simp add: sentence_tokens_def blanked_def split_ws_def)

lemma sentence_tokens_plain:
  "\<forall>c \<in> set s. \<not> is_terminator c \<Longrightarrow> sentence_tokens s = split_ws s"
proof -
  assume "\<forall>c \<in> set s. \<not> is_terminator c"
  then have "map (\<lambda>c. if is_terminator c then CHR '' '' else c) s = s"
    by (induction s) auto
  then show ?thesis by (simp add: sentence_tokens_def blanked_def)
qed

lemma split_ws_from_word:
  "\<forall>c \<in> set v. \<not> is_space c \<Longrightarrow> w @ v \<noteq> [] \<Longrightarrow> split_ws_from w v = [w @ v]"
  by (induction v arbitrary: w) auto

lemma sentence_tokens_word: "plain_word w \<Longrightarrow> sentence_tokens w = [w]"
  using split_ws_from_word [of w "[]"]
  by (simp add: plain_word_def sentence_tokens_plain split_ws_def)

lemma split_ws_from_words:
  assumes "\<forall>c \<in> set w. \<not> is_space c \<and> \<not> is_terminator c"
    and "\<forall>c \<in> set s. \<not> is_terminator c"
  shows "\<forall>v \<in> set (split_ws_from w s). plain_word v"
  using assms
proof (induction s arbitrary: w)
  case Nil
  then show ?case by (simp add: plain_word_def)
next
  case (Cons c cs)
  show ?case
  proof (cases "is_space c")
    case True
    have rest: "\<forall>v \<in> set (split_ws_from [] cs). plain_word v"
      using Cons.prems by (intro Cons.IH) simp_all
    have "w \<noteq> [] \<Longrightarrow> plain_word w"
      using Cons.prems(1) by (simp add: plain_word_def)
    with True rest show ?thesis by simp
  next
    case False
    have "\<forall>v \<in> set (split_ws_from (w @ [c]) cs). plain_word v"
      using Cons.prems False by (intro Cons.IH) simp_all
    with False show ?thesis by simp
  qed
qed

lemma split_ws_words:
  "\<forall>c \<in> set s. \<not> is_terminator c \<Longrightarrow> \<forall>v \<in> set (split_ws s). plain_word v"
  using split_ws_from_words [of "[]" s] by (simp add: split_ws_def)

lemma add_word_tokens:
  "plain_word w \<Longrightarrow> tokens_state (add_word m st w) = tokens_state st @ [w]"
  by (cases st)
     (auto simp: add_word_def tokens_state_def truthy_def sentence_tokens_strip
        sentence_tokens_join sentence_tokens_word sentence_tokens_Nil)

lemma foldl_add_word_tokens:
  "\<forall>w \<in> set ws. plain_word w
     \<Longrightarrow> tokens_state (foldl (add_word m) st ws) = tokens_state st @ ws"
  by (induction ws arbitrary: st) (simp_all add: add_word_tokens)

lemma add_sentence_tokens:
  assumes "\<forall>c \<in> set raw. \<not> is_terminator c"
  shows "tokens_state (add_sentence m st raw) = tokens_state st @ split_ws raw"
proof -
  obtain chunks cur where st: "st = (chunks, cur)" by (cases st)
  obtain l r where "raw = l @ strip raw @ r" using strip_decomp by blast
  then have "set (strip raw) \<subseteq> set raw"
    by (metis Un_upper1 Un_upper2 set_append subset_trans)
  with assms have plain: "\<forall>c \<in> set (strip raw). \<not> is_terminator c" by blast
  then have words: "\<forall>w \<in> set (split_ws (strip raw)). plain_word w"
    by (rule split_ws_words)
  have toks: "sentence_tokens (strip raw) = split_ws (strip raw)"
    using plain by (rule sentence_tokens_plain)
  have raw: "split_ws raw = split_ws (strip raw)"
    using assms toks by (simp add: sentence_tokens_strip sentence_tokens_plain [symmetric])
  show ?thesis
  proof (cases "strip raw = []")
    case True
    with st raw show ?thesis
      by (simp add: add_sentence_def truthy_def split_ws_Nil Let_def)
  next
    case False
    show ?thesis
    proof (cases "int (length cur) + int (length (strip raw)) > m")
      case big: True
      show ?thesis
      proof (cases "cur = []")
        case True
        with st False big raw foldl_add_word_tokens [OF words, of m "(chunks, cur)"]
        show ?thesis by (simp add: add_sentence_def truthy_def Let_def)
      next
        case nonempty: False
        with st False big raw toks show ?thesis
          by (simp add: add_sentence_def truthy_def tokens_state_def sentence_tokens_strip Let_def)
      qed
    next
      case small: False
      with st False raw toks show ?thesis
        by (simp add: add_sentence_def truthy_def tokens_state_def sentence_tokens_join
              sentence_tokens_Nil Let_def)
    qed
  qed
qed

lemma re_split_from_plain:
  "\<forall>p \<in> set (re_split_from b s). \<forall>c \<in> set p. \<not> is_terminator c"
proof (induction s arbitrary: b)
  case Nil
  then show ?case by simp
next
  case (Cons c cs)
  show ?case
  proof (cases "is_terminator c")
    case True
    with Cons [of True] show ?thesis by simp
  next
    case False
    show ?thesis
    proof (cases "re_split_from False cs")
      case Nil
      with False show ?thesis by simp
    next
      case (Cons p ps)
      with False Cons.IH [of False] show ?thesis by simp
    qed
  qed
qed

lemma foldl_add_sentence_tokens:
  "\<forall>p \<in> set ps. \<forall>c \<in> set p. \<not> is_terminator c
     \<Longrightarrow> tokens_state (foldl (add_sentence m) st ps) = tokens_state st @ concat (map split_ws ps)"
  by (induction ps arbitrary: st) (simp_all add: add_sentence_tokens)

lemma re_split_from_nonempty: "re_split_from b s \<noteq> []"
  by (induction s arbitrary: b) (auto split: list.splits)

lemma re_split_from_tokens:
  "(\<forall>w. split_ws_from w (blanked s)
        = split_ws_from w (hd (re_split_from False s))
          @ concat (map split_ws (tl (re_split_from False s)))) \<and>
   split_ws_from [] (blanked s) = concat (map split_ws (re_split_from True s))"
proof (induction s)
  case Nil
  then show ?case by (simp add: split_ws_def blanked_def)
next
  case (Cons c cs)
  from Cons have A: "\<And>w. split_ws_from w (blanked cs)
        = split_ws_from w (hd (re_split_from False cs))
          @ concat (map split_ws (tl (re_split_from False cs)))"
    and B: "split_ws_from [] (blanked cs) = concat (map split_ws (re_split_from True cs))"
    by blast+
  show ?case
  proof (cases "is_terminator c")
    case True
    then have b: "blanked (c # cs) = CHR '' '' # blanked cs"
      by (simp add: blanked_def)
    have "\<And>w. split_ws_from w (blanked (c # cs))
        = split_ws_from w (hd (re_split_from False (c # cs)))
          @ concat (map split_ws (tl (re_split_from False (c # cs))))"
      using True by (simp add: b is_space_blank B)
    moreover have "split_ws_from [] (blanked (c # cs))
        = concat (map split_ws (re_split_from True (c # cs)))"
      using True by (simp add: b is_space_blank B)
    ultimately show ?thesis by blast
  next
    case False
    then have b: "blanked (c # cs) = c # blanked cs"
      by (simp add: blanked_def)
    obtain p ps where p: "re_split_from False cs = p # ps"
      using re_split_from_nonempty [of False cs] by (cases "re_split_from False cs") auto
    have "\<And>w. split_ws_from w (blanked (c # cs))
        = split_ws_from w (hd (re_split_from False (c # cs)))
          @ concat (map split_ws (tl (re_split_from False (c # cs))))"
      using False p A by (simp add: b)
    moreover have "split_ws_from [] (blanked (c # cs))
        = concat (map split_ws (re_split_from True (c # cs)))"
      using False p A by (simp add: b split_ws_def)
    ultimately show ?thesis by blast
  qed
qed

text \<open>
  C1.  The size test of \<open>chunk_text_for_tts\<close> leaves two ways to a chunk of several words
  that is longer than \<open>max_chunk_size\<close>.  A sentence longer than the limit that arrives
  while the current chunk is not empty becomes the current chunk as it is, without being
  split into words; and the test adds the lengths of the chunk and of the next piece
  without the separator that is then put between them.
\<close>

theorem chunk_text_for_tts_oversized:
  "chunk_text_for_tts ''ab. cccc dddd'' 5 = [''ab'', ''cccc dddd''] \<and>
   int (length ''cccc dddd'') > 5 \<and>
   split_ws ''cccc dddd'' = [''cccc'', ''dddd''] \<and>
   chunk_text_for_tts ''aaaa. bbbb'' 8 = [''aaaa. bbbb''] \<and>
   int (length ''aaaa. bbbb'') > 8 \<and>
   split_ws ''aaaa. bbbb'' = [''aaaa.'', ''bbbb'']"
  by code_simp

text \<open>
  C2 as stated fails: the sentence terminators of the input are not in the chunks.  A run
  of them is replaced by a full stop and a blank inside a chunk and is lost at the end of
  a chunk, so the chunks do not give the text back, even up to white space.
\<close>

theorem chunk_text_for_tts_roundtrip_counterexample:
  "chunk_text_for_tts ''Hello world! How are you?'' 4000 = [''Hello world. How are you''] \<and>
   normalize_ws (concat (chunk_text_for_tts ''Hello world! How are you?'' 4000))
     \<noteq> normalize_ws ''Hello world! How are you?'' \<and>
   normalize_ws (join '' '' (chunk_text_for_tts ''Hello world! How are you?'' 4000))
     \<noteq> normalize_ws ''Hello world! How are you?''"
  by code_simp

text \<open>
  C2 (amended).  The words of the chunks, taken in output order, are the words of the
  input, where a word is a maximal run of characters that are neither white space nor one
  of the terminators \<open>.\<close>, \<open>!\<close>, \<open>?\<close>: no word is dropped, duplicated or moved, whatever
  \<open>max_chunk_size\<close> is.
\<close>

theorem chunk_text_for_tts_tokens:
  "concat (map sentence_tokens (chunk_text_for_tts txt max_chunk_size)) = sentence_tokens txt"
proof -
  obtain chunks cur where
    st: "foldl (add_sentence max_chunk_size) ([], []) (re_split_sentences txt) = (chunks, cur)"
    by (cases "foldl (add_sentence max_chunk_size) ([], []) (re_split_sentences txt)")
  have "tokens_state (chunks, cur)
          = tokens_state ([], []) @ concat (map split_ws (re_split_sentences txt))"
    unfolding st [symmetric] re_split_sentences_def
    by (intro foldl_add_sentence_tokens re_split_from_plain)
  also have "\<dots> = concat (map split_ws (re_split_from False txt))"
    by (simp add: tokens_state_def sentence_tokens_Nil re_split_sentences_def)
  also have "\<dots> = sentence_tokens txt"
    using re_split_from_tokens [of "txt"] re_split_from_nonempty [of False "txt"]
    by (cases "re_split_from False txt")
       (simp_all add: sentence_tokens_def blanked_def split_ws_def)
  finally have "tokens_state (chunks, cur) = sentence_tokens txt" .
  moreover have "concat (map sentence_tokens (chunk_text_for_tts txt max_chunk_size))
                   = tokens_state (chunks, cur)"
    using st
    by (auto simp: chunk_text_for_tts_def tokens_state_def truthy_def sentence_tokens_strip
          sentence_tokens_Nil)
  ultimately show ?thesis by simp
qed

section \<open>The rate limiter\<close>

text \<open>
  C6.  The limiter records the time read before the sleep, not the time at which the request
  is sent after it.  With the cap of 50: fifty requests at time 0, one call at time 1 (it
  sleeps 59 seconds and sends at 60, but is recorded at 1), forty-nine calls at time 60 and
  one at time 61, when the record of time 1 has aged out.  All pass, and 51 requests are
  sent in the 60 seconds from time 60 (in fact within one second).  The same happens with
  the cap of 100.
\<close>

theorem rate_limiter_window_overflow:
  "requests_per_minute openai_limiter = 50 \<and>
   in_window 60
     (requests_sent openai_limiter (replicate 50 0 @ [1] @ replicate 49 60 @ [61])) = 51 \<and>
   requests_per_minute google_limiter = 100 \<and>
   in_window 60
     (requests_sent google_limiter (replicate 100 0 @ [1] @ replicate 99 60 @ [61])) = 101"
  by code_simp

section \<open>The job supervisor\<close>

lemma update_progress_unseen:
  assumes "unseen w st (Suc k)"
  shows "update_progress w msg prog st = (None, after_update msg prog st)"
    and "unseen w (after_update msg prog st) k"
  using assms
  by (auto simp: unseen_def update_progress_def read_status_def after_update_def Let_def
        split: option.splits)

lemma unseen_after_call: "unseen w (after_call t st) k = unseen w st k"
  by (simp add: unseen_def after_call_def split: option.splits)

lemma unseen_sleep: "unseen w (sleep n st) k = unseen w st k"
  by (simp add: unseen_def sleep_def split: option.splits)

lemma tts_calls_after [simp]:
  "tts_calls (after_call t st) = tts_calls st + 1"
  "tts_calls (after_update msg prog st) = tts_calls st"
  "tts_calls (sleep n st) = tts_calls st"
  "tts_calls (after_backoff n t prog st) = tts_calls st + 1"
  by (simp_all add: after_call_def after_update_def sleep_def after_backoff_def)

lemma events_after [simp]:
  "events (after_call t st) = events st @ [TtsRequest t]"
  "events (after_update msg prog st) = events st @ [ProgressUpdate msg prog]"
  "events (sleep n st) = events st @ [Slept n]"
  "events (after_backoff n t prog st)
     = events st @ [TtsRequest t, ProgressUpdate (retry_note n) prog, Slept (2 ^ n)]"
  by (simp_all add: after_call_def after_update_def sleep_def after_backoff_def)

lemma retry_success:
  assumes "n < max_tts_retries" and "tts_outcome w sett chunk (tts_calls st) = Inr a"
  shows "tts_retry_loop w sett chunk prog n acs st = (Inr (acs @ [a]), after_call (fst chunk) st)"
  using assms
  by (subst tts_retry_loop.simps) (simp add: tts_attempt_def after_call_def)

lemma retry_exhausted:
  assumes "n < max_tts_retries" and "max_tts_retries \<le> n + 1"
    and "tts_outcome w sett chunk (tts_calls st) = Inl (Exception e)"
  shows "tts_retry_loop w sett chunk prog n acs st
           = (Inl (Exception (''TTS failed after '' @ str_nat max_tts_retries @ '' retries: '' @ e)),
              after_call (fst chunk) st)"
  using assms
  by (subst tts_retry_loop.simps) (simp add: tts_attempt_def after_call_def)

lemma retry_again:
  assumes "n + 1 < max_tts_retries" and "unseen w st (Suc k)"
    and "tts_outcome w sett chunk (tts_calls st) = Inl (Exception e)"
  shows "tts_retry_loop w sett chunk prog n acs st
           = tts_retry_loop w sett chunk prog (n + 1) acs (after_backoff (n + 1) (fst chunk) prog st)"
    and "unseen w (after_backoff (n + 1) (fst chunk) prog st) k"
proof -
  have u: "unseen w (after_call (fst chunk) st) (Suc k)"
    using assms(2) by (simp add: unseen_after_call)
  have call: "tts_attempt w sett chunk st = (Inl (Exception e), after_call (fst chunk) st)"
    using assms(3) by (simp add: tts_attempt_def after_call_def)
  show "tts_retry_loop w sett chunk prog n acs st
           = tts_retry_loop w sett chunk prog (n + 1) acs (after_backoff (n + 1) (fst chunk) prog st)"
    using assms(1)
    by (subst tts_retry_loop.simps)
       (simp add: call update_progress_unseen(1) [OF u] after_backoff_def retry_note_def)
  show "unseen w (after_backoff (n + 1) (fst chunk) prog st) k"
    using update_progress_unseen(2) [OF u] by (simp add: after_backoff_def unseen_sleep)
qed

lemma retry_note_values:
  "retry_note 1 = ''TTS retry 1/3 in 2s...''" "retry_note 2 = ''TTS retry 2/3 in 4s...''"
  "retry_note (Suc 0) = ''TTS retry 1/3 in 2s...''"
  by code_simp+

lemma str_nat_3: "str_nat max_tts_retries = ''3''"
  by code_simp

lemma three_failures:
  assumes u: "unseen w st 2"
    and f1: "tts_outcome w sett chunk (tts_calls st) = Inl (Exception e1)"
    and f2: "tts_outcome w sett chunk (tts_calls st + 1) = Inl (Exception e2)"
    and f3: "tts_outcome w sett chunk (tts_calls st + 2) = Inl (Exception e3)"
  shows "tts_retry_loop w sett chunk prog 0 acs st
           = (Inl (Exception (''TTS failed after 3 retries: '' @ e3)),
              after_call (fst chunk)
                (after_backoff 2 (fst chunk) prog (after_backoff 1 (fst chunk) prog st)))"
proof -
  let ?s1 = "after_backoff 1 (fst chunk) prog st"
  let ?s2 = "after_backoff 2 (fst chunk) prog ?s1"
  have u2: "unseen w st (Suc 1)" using u by (simp add: numeral_2_eq_2)
  have 1: "tts_retry_loop w sett chunk prog 0 acs st = tts_retry_loop w sett chunk prog 1 acs ?s1"
    and u1: "unseen w ?s1 1"
    using retry_again [where n = 0 and k = 1 and e = e1, OF _ u2 f1]
    by (simp_all add: max_tts_retries_def)
  have f2': "tts_outcome w sett chunk (tts_calls ?s1) = Inl (Exception e2)"
    using f2 by simp
  have 2: "tts_retry_loop w sett chunk prog 1 acs ?s1 = tts_retry_loop w sett chunk prog 2 acs ?s2"
    using retry_again(1) [where n = 1 and k = 0 and e = e2, OF _ _ f2'] u1
    by (simp add: max_tts_retries_def numeral_2_eq_2)
  have f3': "tts_outcome w sett chunk (tts_calls ?s2) = Inl (Exception e3)"
    using f3 by (simp add: numeral_2_eq_2)
  have 3: "tts_retry_loop w sett chunk prog 2 acs ?s2
             = (Inl (Exception (''TTS failed after 3 retries: '' @ e3)), after_call (fst chunk) ?s2)"
    using retry_exhausted [where n = 2, OF _ _ f3']
    by (simp add: str_nat_3) (simp add: max_tts_retries_def)
  from 1 2 3 show ?thesis by simp
qed

lemma third_success:
  assumes u: "unseen w st 2"
    and f1: "tts_outcome w sett chunk (tts_calls st) = Inl (Exception e1)"
    and f2: "tts_outcome w sett chunk (tts_calls st + 1) = Inl (Exception e2)"
    and ok: "tts_outcome w sett chunk (tts_calls st + 2) = Inr a"
  shows "tts_retry_loop w sett chunk prog 0 acs st
           = (Inr (acs @ [a]),
              after_call (fst chunk)
                (after_backoff 2 (fst chunk) prog (after_backoff 1 (fst chunk) prog st)))"
proof -
  let ?s1 = "after_backoff 1 (fst chunk) prog st"
  let ?s2 = "after_backoff 2 (fst chunk) prog ?s1"
  have u2: "unseen w st (Suc 1)" using u by (simp add: numeral_2_eq_2)
  have 1: "tts_retry_loop w sett chunk prog 0 acs st = tts_retry_loop w sett chunk prog 1 acs ?s1"
    and u1: "unseen w ?s1 1"
    using retry_again [where n = 0 and k = 1 and e = e1, OF _ u2 f1]
    by (simp_all add: max_tts_retries_def)
  have f2': "tts_outcome w sett chunk (tts_calls ?s1) = Inl (Exception e2)"
    using f2 by simp
  have 2: "tts_retry_loop w sett chunk prog 1 acs ?s1 = tts_retry_loop w sett chunk prog 2 acs ?s2"
    using retry_again(1) [where n = 1 and k = 0 and e = e2, OF _ _ f2'] u1
    by (simp add: max_tts_retries_def numeral_2_eq_2)
  have ok': "tts_outcome w sett chunk (tts_calls ?s2) = Inr a"
    using ok by (simp add: numeral_2_eq_2)
  have 3: "tts_retry_loop w sett chunk prog 2 acs ?s2 = (Inr (acs @ [a]), after_call (fst chunk) ?s2)"
    using retry_success [where n = 2, OF _ ok']
    by (simp add: max_tts_retries_def)
  from 1 2 3 show ?thesis by simp
qed

lemma synthesize_chunks_step:
  assumes "unseen w st (Suc k)"
  shows "synthesize_chunks w sett n i (chunk # rest) acs st
           = (case tts_retry_loop w sett chunk (5 / 10 + of_nat i / of_nat n * (3 / 10)) 0 acs
                     (after_update (''Synthesizing speech '' @ str_nat (i + 1) @ ''/'' @ str_nat n)
                        (5 / 10 + of_nat i / of_nat n * (3 / 10)) st) of
                (Inl e, st2) \<Rightarrow> (Inl e, st2)
              | (Inr acs', st2) \<Rightarrow> synthesize_chunks w sett n (i + 1) rest acs' st2)"
  by (simp add: update_progress_unseen(1) [OF assms])

text \<open>
  A failure that is seen as one (the call raises, or the answer carries an error that is
  not empty), while no cancellation is seen: the chunk is tried at most three times, with
  a wait of 2 seconds after the first failure and of 4 seconds after the second.  After a
  third failure the loop over the chunks stops with the exception
  \<open>TTS failed after 3 retries:\<close> followed by the cause of the third failure.  When the
  third attempt succeeds, the same waits have passed, no exception leaves the chunk, and
  the loop goes on with the next chunk.
\<close>

lemma chunk_retry_backoff:
  fixes n i :: nat
  defines "p \<equiv> 5 / 10 + of_nat i / of_nat n * (3 / 10)"
  defines "trail \<equiv> (\<lambda>t.
             [ProgressUpdate (''Synthesizing speech '' @ str_nat (i + 1) @ ''/'' @ str_nat n) p,
              TtsRequest t, ProgressUpdate ''TTS retry 1/3 in 2s...'' p, Slept 2,
              TtsRequest t, ProgressUpdate ''TTS retry 2/3 in 4s...'' p, Slept 4,
              TtsRequest t])"
  assumes u: "unseen w st 3"
  shows
    "(\<forall>e1 e2 e3.
        tts_outcome w sett chunk (tts_calls st) = Inl (Exception e1) \<and>
        tts_outcome w sett chunk (tts_calls st + 1) = Inl (Exception e2) \<and>
        tts_outcome w sett chunk (tts_calls st + 2) = Inl (Exception e3) \<longrightarrow>
        (\<exists>st'. synthesize_chunks w sett n i (chunk # rest) acs st
                 = (Inl (Exception (''TTS failed after 3 retries: '' @ e3)), st') \<and>
               events st' = events st @ trail (fst chunk) \<and>
               tts_calls st' = tts_calls st + 3)) \<and>
     (\<forall>e1 e2 a.
        tts_outcome w sett chunk (tts_calls st) = Inl (Exception e1) \<and>
        tts_outcome w sett chunk (tts_calls st + 1) = Inl (Exception e2) \<and>
        tts_outcome w sett chunk (tts_calls st + 2) = Inr a \<longrightarrow>
        (\<exists>st'. synthesize_chunks w sett n i (chunk # rest) acs st
                 = synthesize_chunks w sett n (i + 1) rest (acs @ [a]) st' \<and>
               events st' = events st @ trail (fst chunk) \<and>
               tts_calls st' = tts_calls st + 3))"
proof (intro conjI allI impI)
  let ?note = "''Synthesizing speech '' @ str_nat (i + 1) @ ''/'' @ str_nat n"
  let ?s0 = "after_update ?note p st"
  let ?s3 = "after_call (fst chunk)
               (after_backoff 2 (fst chunk) p (after_backoff 1 (fst chunk) p ?s0))"
  have u3: "unseen w st (Suc 2)" using u by (simp add: numeral_3_eq_3 numeral_2_eq_2)
  have u0: "unseen w ?s0 2" using update_progress_unseen(2) [OF u3] .
  have step: "synthesize_chunks w sett n i (chunk # rest) acs st
           = (case tts_retry_loop w sett chunk p 0 acs ?s0 of
                (Inl e, st2) \<Rightarrow> (Inl e, st2)
              | (Inr acs', st2) \<Rightarrow> synthesize_chunks w sett n (i + 1) rest acs' st2)"
    unfolding p_def by (rule synthesize_chunks_step [OF u3])
  have ev: "events ?s3 = events st @ trail (fst chunk)"
    by (simp add: trail_def retry_note_values)
  have calls: "tts_calls ?s3 = tts_calls st + 3" by simp
  {
    fix e1 e2 e3
    assume "tts_outcome w sett chunk (tts_calls st) = Inl (Exception e1) \<and>
        tts_outcome w sett chunk (tts_calls st + 1) = Inl (Exception e2) \<and>
        tts_outcome w sett chunk (tts_calls st + 2) = Inl (Exception e3)"
    then have "tts_retry_loop w sett chunk p 0 acs ?s0
                 = (Inl (Exception (''TTS failed after 3 retries: '' @ e3)), ?s3)"
      by (intro three_failures [OF u0]) simp_all
    with step ev calls
    show "\<exists>st'. synthesize_chunks w sett n i (chunk # rest) acs st
                 = (Inl (Exception (''TTS failed after 3 retries: '' @ e3)), st') \<and>
               events st' = events st @ trail (fst chunk) \<and>
               tts_calls st' = tts_calls st + 3"
      by (intro exI [of _ ?s3]) simp
  }
  {
    fix e1 e2 a
    assume "tts_outcome w sett chunk (tts_calls st) = Inl (Exception e1) \<and>
        tts_outcome w sett chunk (tts_calls st + 1) = Inl (Exception e2) \<and>
        tts_outcome w sett chunk (tts_calls st + 2) = Inr a"
    then have "tts_retry_loop w sett chunk p 0 acs ?s0 = (Inr (acs @ [a]), ?s3)"
      by (intro third_success [OF u0]) simp_all
    with step ev calls
    show "\<exists>st'. synthesize_chunks w sett n i (chunk # rest) acs st
                 = synthesize_chunks w sett n (i + 1) rest (acs @ [a]) st' \<and>
               events st' = events st @ trail (fst chunk) \<and>
               tts_calls st' = tts_calls st + 3"
      by (intro exI [of _ ?s3]) simp
  }
qed


text \<open>
  C5.  A synthesis call that fails with an exception without a message comes back from the
  service as an answer with \<open>error=''\<close> and no audio.  The test \<open>if response.error:\<close>
  takes it for a success: the chunk is appended with empty audio after a single call, with
  no retry and no wait.  The pipeline run then fails later, on the audio that does not
  decode, after one synthesis call and no wait, and the exception it ends with is not the
  synthesis error.
\<close>

theorem tts_empty_error_not_retried:
  "outcome_report
     (synthesize_chunks silent_failure_world sample_settings 1 0 [(''Hello'', ''Chapter 1'')] []
        (start_state sample_job))
     = (Inr [\<lparr>audio_data = [], chunk_text = ''Hello'', chunk_chapter = Some ''Chapter 1'',
               start_time = None, duration = None\<rparr>], 1, []) \<and>
   outcome_report
     (run_pipeline silent_failure_world ''j1'' sample_settings 0 (start_state sample_job))
     = (Some (Exception ''could not decode audio''), 1, [])"
  by code_simp

text \<open>
  C3.  A cancellation is raised by \<open>update_progress\<close> as an ordinary exception, and the
  handler of the pipeline counts it as a failed attempt.  When it is seen during the third
  attempt, the attempts are used up and the job is marked as failed, with the cancellation
  message as its error.
\<close>

theorem process_conversion_cancel_becomes_failed:
  "summary (process_conversion cancelled_world ''j1'' sample_settings sample_job)
     = (Failed, 1 / 10, Some ''Job was cancelled by user'', [5, 10])"
  by code_simp

text \<open>
  C4.  A conversion that succeeds records the progress value 100 with the status
  \<open>completed\<close>, after a last progress update of 1.
\<close>

theorem process_conversion_completed_progress:
  "summary (process_conversion sample_world ''j1'' sample_settings sample_job)
     = (Completed, 100, None, []) \<and>
   \<not> progress (the_job (process_conversion sample_world ''j1'' sample_settings sample_job)) \<le> 1"
  by code_simp

end
